theory Spec2Isabelle
  imports Complex_Main "HOL-Library.Char_ord" "HOL-Library.List_Lexorder"
    "HOL-Library.Product_Lexorder" "HOL-Library.Multiset" "HOL-Library.AList"
begin

section \<open>Strings\<close>

text \<open>
  Python text is a sequence of code points; the model has \<^typ>\<open>string\<close>, whose
  characters are the code points below 256. \<open>str.upper\<close> replaces every character by
  its upper-case mapping, which may be several characters long (the German sharp s
  gives \<open>SS\<close>). On ASCII the mapping turns the letters \<open>a\<close> to \<open>z\<close> into \<open>A\<close> to \<open>Z\<close>
  and keeps every other character. Beyond ASCII it is taken from the Unicode database,
  which is not part of the repository: the model leaves it unspecified.
\<close>

definition is_ascii :: "char \<Rightarrow> bool" where
  "is_ascii c = ((of_char c :: nat) < 128)"

definition upper_char :: "char \<Rightarrow> char" where
  "upper_char c =
     (let n = (of_char c :: nat) in if 97 \<le> n \<and> n \<le> 122 then char_of (n - 32) else c)"

definition unicode_upper :: "char \<Rightarrow> string" where
  "unicode_upper = undefined"

definition upper :: "string \<Rightarrow> string" where
  "upper s = concat (map (\<lambda>c. if is_ascii c then [upper_char c] else unicode_upper c) s)"

text \<open>
  \<open>str.zfill(width)\<close>: a string at least \<open>width\<close> long is returned as it is; otherwise
  zeros are inserted on the left, after a leading sign character \<open>+\<close> or \<open>-\<close> if there
  is one.
\<close>

definition zfill :: "nat \<Rightarrow> string \<Rightarrow> string" where
  "zfill width s =
     (if width \<le> length s then s
      else (case s of
              [] \<Rightarrow> replicate (width - length s) (CHR ''0'') @ s
            | c # rest \<Rightarrow>
                if c = CHR ''+'' \<or> c = CHR ''-''
                then c # replicate (width - length s) (CHR ''0'') @ rest
                else replicate (width - length s) (CHR ''0'') @ s))"

text \<open>
  \<open>d.get(k) or default\<close> on a text entry: the default replaces a missing key, a
  \<open>None\<close> and the empty string alike.
\<close>

definition str_or :: "string option \<Rightarrow> string \<Rightarrow> string" where
  "str_or v d = (case v of None \<Rightarrow> d | Some s \<Rightarrow> if s = [] then d else s)"

section \<open>Tag generator\<close>

text \<open>
  \<open>generate_asset_tag(form_data)\<close> of the SQLite variant. It reads four text inputs of
  the submitted dict; the dict is a map from the field label to the text, where a key
  that is missing or holds \<open>None\<close> is absent from the map.
\<close>

definition generate_asset_tag :: "(string \<rightharpoonup> string) \<Rightarrow> string" where
  "generate_asset_tag form_data =
     (let serial = (case form_data ''Serial Number'' of
                      None \<Rightarrow> ''0000''
                    | Some s \<Rightarrow> if s \<noteq> [] then zfill 4 s else ''0000'');
          dept = upper (take 3 (str_or (form_data ''Department'') ''GEN''));
          loc = upper (take 3 (str_or (form_data ''Location'') ''LOC''));
          asset = upper (take 3 (str_or (form_data ''Asset Name'') ''AST''))
      in asset @ ''-'' @ loc @ ''-'' @ dept @ ''-'' @ serial)"

text \<open>
  The spreadsheet variant builds the tag inline in its ``Add New Asset'' branch, from a
  dict in which the four keys are always present: the default is chosen after the
  emptiness test instead of before the truncation.
\<close>

definition new_tag_xlsx :: "string \<Rightarrow> string \<Rightarrow> string \<Rightarrow> string \<Rightarrow> string" where
  "new_tag_xlsx asset_name location department serial_number =
     (let serial = (if serial_number \<noteq> [] then zfill 4 serial_number else ''0000'');
          dept = (if department \<noteq> [] then upper (take 3 department) else ''GEN'');
          loc = (if location \<noteq> [] then upper (take 3 location) else ''LOC'');
          asset = (if asset_name \<noteq> [] then upper (take 3 asset_name) else ''AST'')
      in asset @ ''-'' @ loc @ ''-'' @ dept @ ''-'' @ serial)"

subsection \<open>The tag as the specification words it\<close>

definition first_three_chars :: "string option \<Rightarrow> string \<Rightarrow> string" where
  "first_three_chars field pad =
     take 3 (case field of None \<Rightarrow> pad | Some s \<Rightarrow> if s = [] then pad else s)"

definition zero_pad_left :: "nat \<Rightarrow> string \<Rightarrow> string" where
  "zero_pad_left width s = replicate (width - length s) (CHR ''0'') @ s"

definition zero_pad_serial :: "string option \<Rightarrow> string" where
  "zero_pad_serial serial =
     (case serial of
        None \<Rightarrow> ''0000''
      | Some s \<Rightarrow> if s = [] then ''0000'' else zero_pad_left 4 s)"

definition tag_prefix :: "(string \<rightharpoonup> string) \<Rightarrow> string" where
  "tag_prefix fd =
     upper (first_three_chars (fd ''Asset Name'') ''AST'') @ ''-'' @
     upper (first_three_chars (fd ''Location'') ''LOC'') @ ''-'' @
     upper (first_three_chars (fd ''Department'') ''GEN'') @ ''-''"

definition spec_tag :: "(string \<rightharpoonup> string) \<Rightarrow> string" where
  "spec_tag fd = tag_prefix fd @ zero_pad_serial (fd ''Serial Number'')"

definition is_sign :: "char \<Rightarrow> bool" where
  "is_sign c = (c = CHR ''+'' \<or> c = CHR ''-'')"

definition signed_serial :: "(string \<rightharpoonup> string) \<Rightarrow> bool" where
  "signed_serial fd =
     (case fd ''Serial Number'' of Some (c # rest) \<Rightarrow> is_sign c | _ \<Rightarrow> False)"

subsection \<open>The shape of a tag\<close>

text \<open>\<open>split_on d s\<close> is \<open>s.split(d)\<close> for a separator of one character.\<close>

fun split_on :: "char \<Rightarrow> string \<Rightarrow> string list" where
  "split_on d [] = [[]]"
| "split_on d (c # cs) =
     (if c = d then [] # split_on d cs
      else (case split_on d cs of [] \<Rightarrow> [[c]] | h # t \<Rightarrow> (c # h) # t))"

definition is_digit :: "char \<Rightarrow> bool" where
  "is_digit c = (let n = (of_char c :: nat) in 48 \<le> n \<and> n \<le> 57)"

definition tag_shape :: "string \<Rightarrow> bool" where
  "tag_shape t =
     (case split_on (CHR ''-'') t of
        [a, b, c, d] \<Rightarrow>
          length a = 3 \<and> length b = 3 \<and> length c = 3 \<and> length d = 4 \<and> list_all is_digit d
      | _ \<Rightarrow> False)"

definition field_ok :: "string option \<Rightarrow> bool" where
  "field_ok v =
     (case v of
        None \<Rightarrow> True
      | Some s \<Rightarrow>
          s = [] \<or> (3 \<le> length s \<and> list_all (\<lambda>c. is_ascii c \<and> c \<noteq> CHR ''-'') (take 3 s)))"

definition serial_ok :: "string option \<Rightarrow> bool" where
  "serial_ok v =
     (case v of None \<Rightarrow> True | Some s \<Rightarrow> length s \<le> 4 \<and> list_all is_digit s)"


section \<open>Values, rows and errors\<close>

text \<open>
  The values bound to and read from the database: \<open>None\<close>/\<open>NULL\<close>, text, integers
  and floats. A float is represented by the rational number it denotes; the modelled
  code does no float arithmetic.
\<close>

datatype val = VNone | VStr string | VInt int | VFloat rat

text \<open>
  A row is what \<open>dict(row)\<close> yields: the column names with their values, in the order
  of the columns. A table is the list of its rows in insertion order.
\<close>

type_synonym row = "(string \<times> val) list"
type_synonym table = "row list"

text \<open>
  \<open>IntegrityError\<close> and \<open>OperationalError\<close> are raised by the SQL engine,
  \<open>OverflowError\<close> by the binding of a parameter, \<open>TypeError\<close>, \<open>ValueError\<close> and
  \<open>IndexError\<close> by Python. \<open>TagExists\<close> and \<open>NoTagSelected\<close> are the two messages the
  form handler reports through \<open>st.error\<close> instead of saving.
\<close>

datatype error =
  IntegrityError | OperationalError | OverflowError | TypeError | ValueError | IndexError
  | TagExists string | NoTagSelected

definition dict_get :: "(string \<times> val) list \<Rightarrow> string \<Rightarrow> val \<Rightarrow> val" where
  "dict_get d k dflt = (case map_of d k of None \<Rightarrow> dflt | Some v \<Rightarrow> v)"

fun truthy :: "val \<Rightarrow> bool" where
  "truthy VNone = False"
| "truthy (VStr s) = (s \<noteq> [])"
| "truthy (VInt i) = (i \<noteq> 0)"
| "truthy (VFloat q) = (q \<noteq> 0)"

definition py_or :: "val \<Rightarrow> val \<Rightarrow> val" where
  "py_or a b = (if truthy a then a else b)"

text \<open>
  \<open>int(x)\<close>. Text is read as an optional sign followed by decimal digits (the white
  space and underscores that \<open>int\<close> also accepts are not modelled); a float is
  truncated towards zero.
\<close>

definition digits_value :: "string \<Rightarrow> nat" where
  "digits_value s = foldl (\<lambda>n c. 10 * n + (of_char c - 48)) 0 s"

definition int_of_str :: "string \<Rightarrow> int option" where
  "int_of_str s =
     (let (neg, ds) = (case s of
                         c # rest \<Rightarrow> if c = CHR ''-'' then (True, rest)
                                    else if c = CHR ''+'' then (False, rest) else (False, s)
                       | [] \<Rightarrow> (False, s))
      in if ds \<noteq> [] \<and> list_all is_digit ds
         then Some (if neg then - int (digits_value ds) else int (digits_value ds))
         else None)"

fun py_int :: "val \<Rightarrow> error + int" where
  "py_int VNone = Inl TypeError"
| "py_int (VInt i) = Inr i"
| "py_int (VFloat q) = Inr (if 0 \<le> q then \<lfloor>q\<rfloor> else \<lceil>q\<rceil>)"
| "py_int (VStr s) = (case int_of_str s of None \<Rightarrow> Inl ValueError | Some i \<Rightarrow> Inr i)"

section \<open>Clock\<close>

text \<open>
  \<open>now_iso()\<close> renders the local time with \<open>strftime("%Y-%m-%d %H:%M:%S")\<close>: four
  digits for the year (years 1000 to 9999) and two for every other field.
\<close>

record datetime =
  year :: nat
  month :: nat
  day :: nat
  hour :: nat
  minute :: nat
  second :: nat

definition digit_char :: "nat \<Rightarrow> char" where
  "digit_char n = char_of (48 + n mod 10)"

definition digits2 :: "nat \<Rightarrow> string" where
  "digits2 n = [digit_char (n div 10), digit_char n]"

definition digits4 :: "nat \<Rightarrow> string" where
  "digits4 n = [digit_char (n div 1000), digit_char (n div 100), digit_char (n div 10), digit_char n]"

definition now_iso :: "datetime \<Rightarrow> string" where
  "now_iso dt =
     digits4 (year dt) @ ''-'' @ digits2 (month dt) @ ''-'' @ digits2 (day dt) @ '' '' @
     digits2 (hour dt) @ '':'' @ digits2 (minute dt) @ '':'' @ digits2 (second dt)"

section \<open>Asset repository (SQLite variant)\<close>

text \<open>
  The twenty columns of the \<open>assets\<close> table, \<open>asset_tag\<close> being the primary key.
  Every write stores the value as it is bound: the column affinity of SQLite is not
  modelled. The form handlers bind text or \<open>None\<close> to the \<open>TEXT\<close> columns, a float to
  the \<open>REAL\<close> column and an integer to the \<open>INTEGER\<close> column, which affinity leaves as
  they are.
\<close>

definition sql_columns :: "string list" where
  "sql_columns =
     [''asset_tag'', ''asset_name'', ''category'', ''description'', ''serial_number'',
      ''assigned_to'', ''department'', ''purchase_date'', ''purchase_price_ghs'',
      ''condition'', ''location'', ''status'', ''warranty_end_date'',
      ''maintenance_schedule'', ''date_added'', ''last_updated'', ''disposal_date'',
      ''notes'', ''update_count'', ''update_history'']"

definition py_to_sql_col :: "string \<Rightarrow> string" where
  "py_to_sql_col py_col =
     (case map_of
        [(''Asset Tag'', ''asset_tag''),
         (''Asset Name'', ''asset_name''),
         (''Category'', ''category''),
         (''Description'', ''description''),
         (''Serial Number'', ''serial_number''),
         (''Assigned To'', ''assigned_to''),
         (''Department'', ''department''),
         (''Purchase Date'', ''purchase_date''),
         (''Purchase Price (GHS)'', ''purchase_price_ghs''),
         (''Condition'', ''condition''),
         (''Location'', ''location''),
         (''Status'', ''status''),
         (''Warranty End Date'', ''warranty_end_date''),
         (''Maintenance Schedule'', ''maintenance_schedule''),
         (''Date Added'', ''date_added''),
         (''Last Updated'', ''last_updated''),
         (''Disposal Date'', ''disposal_date''),
         (''Notes'', ''notes''),
         (''Update Count'', ''update_count''),
         (''Update History'', ''update_history'')] py_col of
        None \<Rightarrow> py_col
      | Some col \<Rightarrow> col)"

definition tag_of :: "row \<Rightarrow> val" where
  "tag_of r = dict_get r ''asset_tag'' VNone"

text \<open>\<open>get_asset\<close>: the first row whose tag is the text asked for, if any.\<close>

definition get_asset :: "string \<Rightarrow> table \<Rightarrow> row option" where
  "get_asset asset_tag t = find (\<lambda>r. tag_of r = VStr asset_tag) t"

text \<open>
  The fifteen entries of \<open>form_norm\<close>, typed as the form widgets and \<open>to_iso\<close> deliver
  them: text inputs and select boxes give text, the price input a float, and a date is
  its ISO text or \<open>None\<close>. The record passed to \<open>insert_asset\<close> extends them by the five
  entries the handler adds.
\<close>

record asset_form =
  Asset_Name :: string
  Category :: string
  Description :: string
  Serial_Number :: string
  Assigned_To :: string
  Department :: string
  Purchase_Date :: "string option"
  Purchase_Price :: rat
  Condition :: string
  Location :: string
  Status :: string
  Warranty_End_Date :: "string option"
  Maintenance_Schedule :: string
  Disposal_Date :: "string option"
  Notes :: string

record asset_record = asset_form +
  Asset_Tag :: string
  Date_Added :: string
  Last_Updated :: string
  Update_Count :: int
  Update_History :: string

definition opt_text :: "string option \<Rightarrow> val" where
  "opt_text v = (case v of None \<Rightarrow> VNone | Some s \<Rightarrow> VStr s)"

text \<open>The dict \<open>form_norm\<close>, in the order in which the handler writes its keys.\<close>

definition form_norm :: "'a asset_form_scheme \<Rightarrow> (string \<times> val) list" where
  "form_norm form =
     [(''Asset Name'', VStr (Asset_Name form)),
      (''Category'', VStr (Category form)),
      (''Description'', VStr (Description form)),
      (''Serial Number'', VStr (Serial_Number form)),
      (''Assigned To'', VStr (Assigned_To form)),
      (''Department'', VStr (Department form)),
      (''Purchase Date'', opt_text (Purchase_Date form)),
      (''Purchase Price (GHS)'', VFloat (Purchase_Price form)),
      (''Condition'', VStr (Condition form)),
      (''Location'', VStr (Location form)),
      (''Status'', VStr (Status form)),
      (''Warranty End Date'', opt_text (Warranty_End_Date form)),
      (''Maintenance Schedule'', VStr (Maintenance_Schedule form)),
      (''Disposal Date'', opt_text (Disposal_Date form)),
      (''Notes'', VStr (Notes form))]"

text \<open>The text entries of a dict, as \<open>generate_asset_tag\<close> reads them.\<close>

definition text_entries :: "(string \<times> val) list \<Rightarrow> (string \<rightharpoonup> string)" where
  "text_entries d = (\<lambda>k. case map_of d k of Some (VStr s) \<Rightarrow> Some s | _ \<Rightarrow> None)"

text \<open>
  \<open>insert_asset\<close>: one \<open>INSERT\<close> of the twenty values. The primary key rejects a tag
  that a stored row already has.
\<close>

definition row_of_record :: "asset_record \<Rightarrow> row" where
  "row_of_record record =
     [(''asset_tag'', VStr (Asset_Tag record)),
      (''asset_name'', VStr (Asset_Name record)),
      (''category'', VStr (Category record)),
      (''description'', VStr (Description record)),
      (''serial_number'', VStr (Serial_Number record)),
      (''assigned_to'', VStr (Assigned_To record)),
      (''department'', VStr (Department record)),
      (''purchase_date'', opt_text (Purchase_Date record)),
      (''purchase_price_ghs'', VFloat (Purchase_Price record)),
      (''condition'', VStr (Condition record)),
      (''location'', VStr (Location record)),
      (''status'', VStr (Status record)),
      (''warranty_end_date'', opt_text (Warranty_End_Date record)),
      (''maintenance_schedule'', VStr (Maintenance_Schedule record)),
      (''date_added'', VStr (Date_Added record)),
      (''last_updated'', VStr (Last_Updated record)),
      (''disposal_date'', opt_text (Disposal_Date record)),
      (''notes'', VStr (Notes record)),
      (''update_count'', VInt (Update_Count record)),
      (''update_history'', VStr (Update_History record))]"

definition insert_asset :: "asset_record \<Rightarrow> table \<Rightarrow> error + table" where
  "insert_asset record t =
     (if \<exists>r \<in> set t. tag_of r = VStr (Asset_Tag record) then Inl IntegrityError
      else Inr (t @ [row_of_record record]))"

text \<open>
  \<open>update_asset\<close> builds the statement text
  \<open>UPDATE assets SET col=?, ... WHERE asset_tag=?\<close> from the mapped keys of \<open>updates\<close>
  in dict order and runs it with the values and the tag as parameters.

  Where every mapped key is the name of a column, the model gives what the engine does
  with the statement: an empty \<open>SET\<close> list is a syntax error (\<open>OperationalError\<close>); an
  integer outside the 64-bit range cannot be bound (\<open>OverflowError\<close>); where a column is
  named twice the rightmost assignment counts; every row whose tag is \<open>asset_tag\<close> is
  assigned; the primary key rejects the statement when two rows would then carry the
  same text tag.

  A key that \<open>_py_to_sql_col\<close> does not map to the name of a column is spliced into the
  statement as it is. What the engine makes of such a text (another spelling of a
  column name, \<open>rowid\<close>, more SQL) is outside the model: \<open>sqlite_execute\<close> is left
  unspecified.
\<close>

text \<open>
  The declared types give \<open>purchase_price_ghs\<close> the affinity \<open>REAL\<close>, \<open>update_count\<close>
  the affinity \<open>INTEGER\<close> and every other column the affinity \<open>TEXT\<close>. \<open>NULL\<close> is
  stored in every column, and a value of the storage class of the column is stored as
  it is. Any other value the engine converts on the way in (a number into its text, a
  numeric text into a number); that conversion is outside the model: \<open>sqlite_affinity\<close>
  is left unspecified.
\<close>

fun stored_as_is :: "string \<Rightarrow> val \<Rightarrow> bool" where
  "stored_as_is col VNone = True"
| "stored_as_is col (VStr s) = (col \<notin> {''purchase_price_ghs'', ''update_count''})"
| "stored_as_is col (VFloat q) = (col = ''purchase_price_ghs'')"
| "stored_as_is col (VInt i) = (col = ''update_count'')"

definition sqlite_affinity :: "string \<Rightarrow> val \<Rightarrow> val" where
  "sqlite_affinity = undefined"

definition store :: "string \<Rightarrow> val \<Rightarrow> val" where
  "store col v = (if stored_as_is col v then v else sqlite_affinity col v)"

definition assign :: "(string \<times> val) list \<Rightarrow> row \<Rightarrow> row" where
  "assign updates r =
     foldl (\<lambda>r' (k, v). AList.update (py_to_sql_col k) (store (py_to_sql_col k) v) r') r updates"

definition text_tags :: "table \<Rightarrow> string list" where
  "text_tags t = concat (map (\<lambda>r. case tag_of r of VStr s \<Rightarrow> [s] | _ \<Rightarrow> []) t)"

fun join_with :: "string \<Rightarrow> string list \<Rightarrow> string" where
  "join_with sep [] = []"
| "join_with sep [x] = x"
| "join_with sep (x # y # ys) = x @ sep @ join_with sep (y # ys)"

definition update_sql :: "(string \<times> val) list \<Rightarrow> string" where
  "update_sql updates =
     ''UPDATE assets SET '' @ join_with '', '' (map (\<lambda>(k, v). py_to_sql_col k @ ''=?'') updates) @
     '' WHERE asset_tag=?''"

definition sqlite_execute :: "string \<Rightarrow> val list \<Rightarrow> table \<Rightarrow> error + table" where
  "sqlite_execute = undefined"

fun bindable :: "val \<Rightarrow> bool" where
  "bindable (VInt i) = (- (2 ^ 63) \<le> i \<and> i < 2 ^ 63)"
| "bindable v = True"

definition known_columns :: "(string \<times> val) list \<Rightarrow> bool" where
  "known_columns updates = list_all (\<lambda>(k, v). py_to_sql_col k \<in> set sql_columns) updates"

definition update_asset :: "string \<Rightarrow> (string \<times> val) list \<Rightarrow> table \<Rightarrow> error + table" where
  "update_asset asset_tag updates t =
     (let sql = update_sql updates;
          values = map snd updates @ [VStr asset_tag]
      in if \<not> known_columns updates then sqlite_execute sql values t
         else if updates = [] then Inl OperationalError
         else if \<not> list_all bindable values then Inl OverflowError
         else let t' = map (\<lambda>r. if tag_of r = VStr asset_tag then assign updates r else r) t
              in if \<not> distinct (text_tags t') then Inl IntegrityError else Inr t')"

text \<open>
  \<open>get_all_assets_df\<close>: every row, \<open>ORDER BY date_added DESC\<close>. SQLite orders \<open>NULL\<close>
  before numbers and numbers before text, and text by its characters; the order among
  rows of equal key is not fixed by the engine and is the one of the sort used here.
\<close>

fun sql_key :: "val \<Rightarrow> nat \<times> rat \<times> string" where
  "sql_key VNone = (0, 0, [])"
| "sql_key (VInt i) = (1, of_int i, [])"
| "sql_key (VFloat q) = (1, q, [])"
| "sql_key (VStr s) = (2, 0, s)"

definition date_added_key :: "row \<Rightarrow> nat \<times> rat \<times> string" where
  "date_added_key r = sql_key (dict_get r ''date_added'' VNone)"

definition get_all_assets_df :: "table \<Rightarrow> row list" where
  "get_all_assets_df t = rev (sort_key date_added_key t)"

text \<open>A listing is newest first when its keys never increase.\<close>

definition newest_first :: "(row \<Rightarrow> nat \<times> rat \<times> string) \<Rightarrow> row list \<Rightarrow> bool" where
  "newest_first key rows = sorted_wrt (\<lambda>a b. key b \<le> key a) rows"


section \<open>Update-history tracker and the form handler (SQLite variant)\<close>

text \<open>
  The two lines of the ``Update Existing Asset'' branch that compute the new counter and
  the new history from the row read before the form was drawn.
\<close>

definition track_update :: "row \<Rightarrow> string \<Rightarrow> error + (string \<times> val) list" where
  "track_update existing now =
     (let existing_uc = py_or (dict_get existing ''update_count'' (VInt 0)) (VInt 0);
          existing_hist = py_or (dict_get existing ''update_history'' VNone) (VStr [])
      in case py_int existing_uc of
           Inl e \<Rightarrow> Inl e
         | Inr uc \<Rightarrow>
             (if truthy existing_hist
              then (case existing_hist of
                      VStr h \<Rightarrow> Inr [(''Update Count'', VInt (uc + 1)),
                                      (''Update History'', VStr (h @ '' | '' @ now))]
                    | _ \<Rightarrow> Inl TypeError)
              else Inr [(''Update Count'', VInt (uc + 1)), (''Update History'', VStr now)]))"

datatype action = Add_New_Asset | Update_Existing_Asset

text \<open>
  The ``Add/Update Asset'' page on submit. \<open>choice\<close> is the value of the tag select
  box, which is only drawn for an update on a table that has rows; \<open>dt\<close> is the clock
  reading.
\<close>

definition new_record :: "asset_form \<Rightarrow> string \<Rightarrow> string \<Rightarrow> asset_record" where
  "new_record form new_tag now =
     asset_form.extend form
       (asset_record.fields new_tag now now 0 [])"

definition save_asset ::
    "action \<Rightarrow> string option \<Rightarrow> asset_form \<Rightarrow> datetime \<Rightarrow> table \<Rightarrow> error + table" where
  "save_asset act choice form dt t =
     (let selected_tag = (if act = Update_Existing_Asset \<and> t \<noteq> [] then choice else None);
          existing = (case selected_tag of
                        None \<Rightarrow> []
                      | Some tag \<Rightarrow> (case get_asset tag t of None \<Rightarrow> [] | Some r \<Rightarrow> r));
          now = now_iso dt
      in if act = Add_New_Asset
         then (let new_tag = generate_asset_tag (text_entries (form_norm form))
               in case get_asset new_tag t of
                    Some r \<Rightarrow> Inl (TagExists new_tag)
                  | None \<Rightarrow> insert_asset (new_record form new_tag now) t)
         else (case selected_tag of
                 None \<Rightarrow> Inl NoTagSelected
               | Some tag \<Rightarrow>
                   if tag = [] then Inl NoTagSelected
                   else (case track_update existing now of
                           Inl e \<Rightarrow> Inl e
                         | Inr tracked \<Rightarrow>
                             update_asset tag
                               (form_norm form @ [(''Last Updated'', VStr now)] @ tracked) t)))"

text \<open>A session: submits in sequence; a submit that reports an error saves nothing.\<close>

type_synonym submit = "action \<times> string option \<times> asset_form \<times> datetime"

fun run :: "table \<Rightarrow> submit list \<Rightarrow> table" where
  "run t [] = t"
| "run t ((act, choice, form, dt) # rest) =
     run (case save_asset act choice form dt t of Inl e \<Rightarrow> t | Inr t' \<Rightarrow> t') rest"

text \<open>The number of \<open>" | "\<close>-separated entries of a history; the empty history has none.\<close>

fun entries_from :: "string \<Rightarrow> nat" where
  "entries_from (a # b # c # rest) =
     (if [a, b, c] = '' | '' then Suc (entries_from rest) else entries_from (b # c # rest))"
| "entries_from s = 1"

definition history_count :: "string \<Rightarrow> nat" where
  "history_count h = (if h = [] then 0 else entries_from h)"

definition history_matches_count :: "row \<Rightarrow> bool" where
  "history_matches_count r =
     (case (dict_get r ''update_count'' VNone, dict_get r ''update_history'' VNone) of
        (VInt n, VStr h) \<Rightarrow> n = int (history_count h)
      | _ \<Rightarrow> False)"

section \<open>Spreadsheet variant\<close>

text \<open>
  The data frame is the list of its rows, keyed by the column labels, in the order of
  the sheet. Reading the sheet (\<open>pd.read_excel\<close>) and writing it (\<open>DataFrame.to_excel\<close>)
  are library code and are not modelled: a branch is a function from the frame that was
  loaded to the frame that is saved. Both keep the rows in their order. The reader
  infers the types of the cells (an empty text comes back as a missing cell); texts
  such as the generated tags and the timestamps come back as they were written.
\<close>

text \<open>
  The ``Add New Asset'' branch: the tag is built inline and the row is appended to the
  frame, which is then saved. A date input is represented by its ISO text.
\<close>

definition xlsx_add_new_asset :: "asset_form \<Rightarrow> datetime \<Rightarrow> row list \<Rightarrow> row list" where
  "xlsx_add_new_asset form dt df =
     (let now = now_iso dt;
          new_tag = new_tag_xlsx (Asset_Name form) (Location form) (Department form)
                      (Serial_Number form);
          form_data = form_norm form @
            [(''Asset Tag'', VStr new_tag), (''Date Added'', VStr now),
             (''Last Updated'', VStr now), (''Update Count'', VInt 0),
             (''Update History'', VStr [])]
      in df @ [form_data])"

text \<open>
  The update tracking of the ``Update Existing Asset'' branch, on the counter cell and
  the history cell of the row: a missing cell (\<open>NaN\<close>) is \<open>None\<close>, and \<open>str\<close> of a missing
  cell is the text \<open>nan\<close>.
\<close>

definition xlsx_track_update :: "int option \<Rightarrow> string option \<Rightarrow> string \<Rightarrow> int \<times> string" where
  "xlsx_track_update count_cell history_cell now =
     (let update_count = (case count_cell of None \<Rightarrow> 0 | Some c \<Rightarrow> c) + 1;
          prev_history = (case history_cell of None \<Rightarrow> ''nan'' | Some s \<Rightarrow> s)
      in (update_count,
          if prev_history \<notin> set [[], ''nan'', ''None''] then prev_history @ '' | '' @ now
          else now))"

definition xlsx_date_added_key :: "row \<Rightarrow> nat \<times> rat \<times> string" where
  "xlsx_date_added_key r = sql_key (dict_get r ''Date Added'' VNone)"

definition xlsx_tags :: "row list \<Rightarrow> val list" where
  "xlsx_tags df = map (\<lambda>r. dict_get r ''Asset Tag'' VNone) df"

section \<open>Credential store\<close>

text \<open>
  \<open>hashlib.pbkdf2_hmac\<close>, \<open>base64.b64encode\<close> and \<open>base64.b64decode\<close> are library
  functions. PBKDF2-HMAC uses the password only as the key of HMAC, and HMAC (RFC 2104)
  first brings its key to the block length of the hash, 64 bytes for SHA-256: a longer
  key is replaced by its hash, and the key is then padded with zero bytes. The hash,
  the rounds of PBKDF2 on the key block and the salt, and the codec are parameters of
  the model. The salt drawn by \<open>secrets.token_bytes(16)\<close> is an argument of \<open>add_user\<close>.
\<close>

type_synonym bytes = "nat list"

record crypto =
  sha256 :: "bytes \<Rightarrow> bytes"
  pbkdf2_rounds :: "bytes \<Rightarrow> bytes \<Rightarrow> bytes"
  b64encode :: "bytes \<Rightarrow> string"
  b64decode :: "string \<Rightarrow> bytes"

text \<open>\<open>str.encode("utf-8")\<close>, on the code points below 256 that a character holds.\<close>

definition utf8 :: "string \<Rightarrow> bytes" where
  "utf8 s = concat (map (\<lambda>c. let n = (of_char c :: nat)
                              in if n < 128 then [n] else [192 + n div 64, 128 + n mod 64]) s)"

definition hmac_key :: "crypto \<Rightarrow> bytes \<Rightarrow> bytes" where
  "hmac_key c key =
     (let k = (if 64 < length key then sha256 c key else key)
      in k @ replicate (64 - length k) 0)"

definition pbkdf2_hmac_sha256 :: "crypto \<Rightarrow> bytes \<Rightarrow> bytes \<Rightarrow> bytes" where
  "pbkdf2_hmac_sha256 c password salt_bytes = pbkdf2_rounds c (hmac_key c password) salt_bytes"

record user_row =
  password_hash :: string
  salt :: string
  role :: string

type_synonym users = "string \<rightharpoonup> user_row"

definition pbkdf2_hash :: "crypto \<Rightarrow> string \<Rightarrow> bytes \<Rightarrow> string" where
  "pbkdf2_hash c password salt_bytes =
     b64encode c (pbkdf2_hmac_sha256 c (utf8 password) salt_bytes)"

definition add_user :: "crypto \<Rightarrow> bytes \<Rightarrow> string \<Rightarrow> string \<Rightarrow> string \<Rightarrow> users \<Rightarrow> error + users" where
  "add_user c salt_bytes username password user_role us =
     (if user_role \<notin> {''admin'', ''user''} then Inl ValueError
      else let pwd_hash = pbkdf2_hash c password salt_bytes;
               salt_b64 = b64encode c salt_bytes
           in Inr (us(username \<mapsto>
                \<lparr>password_hash = pwd_hash, salt = salt_b64, role = user_role\<rparr>)))"

definition verify_user :: "crypto \<Rightarrow> string \<Rightarrow> string \<Rightarrow> users \<Rightarrow> bool \<times> string option" where
  "verify_user c username password us =
     (case us username of
        None \<Rightarrow> (False, None)
      | Some row \<Rightarrow>
          (let salt_bytes = b64decode c (salt row);
               derived = pbkdf2_hash c password salt_bytes
           in if derived = password_hash row then (True, Some (role row)) else (False, None)))"

section \<open>Database initialisation\<close>

text \<open>
  A database file holds the tables that have been created. \<open>init_db\<close> creates the two
  tables where they are missing, reads the administrator secret (\<open>None\<close> when there is
  no secrets file or no such key) and counts the rows of the user \<open>admin\<close>; neither
  value is used afterwards.
\<close>

record database =
  assets :: "table option"
  users_table :: "users option"

definition fresh_db :: database where
  "fresh_db = \<lparr>assets = None, users_table = None\<rparr>"

definition init_db :: "(string \<rightharpoonup> string) option \<Rightarrow> database \<Rightarrow> database" where
  "init_db secrets db =
     (let db1 = db\<lparr>assets := Some (case assets db of None \<Rightarrow> [] | Some t \<Rightarrow> t)\<rparr>;
          db2 = db1\<lparr>users_table := Some (case users_table db1 of None \<Rightarrow> Map.empty | Some u \<Rightarrow> u)\<rparr>;
          admin_pw = (case secrets of None \<Rightarrow> None | Some s \<Rightarrow> s ''ADMIN_PASSWORD'');
          exists = (case users_table db2 of
                      None \<Rightarrow> (0::nat)
                    | Some u \<Rightarrow> (case u ''admin'' of None \<Rightarrow> 0 | Some row \<Rightarrow> 1))
      in db2)"

definition login :: "crypto \<Rightarrow> string \<Rightarrow> string \<Rightarrow> database \<Rightarrow> error + bool \<times> string option" where
  "login c username password db =
     (case users_table db of
        None \<Rightarrow> Inl OperationalError
      | Some us \<Rightarrow> Inr (verify_user c username password us))"

section \<open>Reporting view\<close>

text \<open>
  The categorical filters of the dashboard, applied in the order of the source, for an
  empty search text and no date range (those two branches are then skipped), and the
  grouped count of the category chart.
\<close>

definition cell :: "row \<Rightarrow> string \<Rightarrow> val" where
  "cell r col = dict_get r col VNone"

definition isin :: "val \<Rightarrow> val list \<Rightarrow> bool" where
  "isin v vs = (v \<in> set vs)"

definition dashboard_filter ::
    "val list \<Rightarrow> val list \<Rightarrow> val list \<Rightarrow> val list \<Rightarrow> row list \<Rightarrow> row list" where
  "dashboard_filter f_category f_dept f_cond f_status friendly =
     (let fdf = friendly;
          fdf = (if f_category \<noteq> [] then filter (\<lambda>r. isin (cell r ''category'') f_category) fdf
                 else fdf);
          fdf = (if f_dept \<noteq> [] then filter (\<lambda>r. isin (cell r ''department'') f_dept) fdf
                 else fdf);
          fdf = (if f_cond \<noteq> [] then filter (\<lambda>r. isin (cell r ''condition'') f_cond) fdf
                 else fdf);
          fdf = (if f_status \<noteq> [] then filter (\<lambda>r. isin (cell r ''status'') f_status) fdf
                 else fdf)
      in fdf)"

text \<open>
  \<open>Series.value_counts()\<close>: the distinct values that are not missing, each with the
  number of its occurrences, the most frequent first.
\<close>

definition value_counts :: "val list \<Rightarrow> (val \<times> nat) list" where
  "value_counts col =
     (let vs = filter (\<lambda>v. v \<noteq> VNone) col;
          keys = rev (remdups (rev vs))
      in sort_key (\<lambda>(v, n). - int n) (map (\<lambda>k. (k, count_list vs k)) keys))"

definition category_chart :: "row list \<Rightarrow> (val \<times> nat) list" where
  "category_chart fdf = value_counts (map (\<lambda>r. cell r ''category'') fdf)"

section \<open>Example inputs\<close>

definition dell_form :: asset_form where
  "dell_form =
     \<lparr>Asset_Name = ''Dell'', Category = ''Laptop'', Description = ''Latitude'',
      Serial_Number = ''1'', Assigned_To = ''Ama'', Department = ''IT'',
      Purchase_Date = Some ''2024-01-15'', Purchase_Price = 8500, Condition = ''New'',
      Location = ''Accra'', Status = ''In Use'', Warranty_End_Date = Some ''2026-01-15'',
      Maintenance_Schedule = ''yearly'', Disposal_Date = None, Notes = ''''\<rparr>"

definition hp_form :: asset_form where
  "hp_form =
     \<lparr>Asset_Name = ''HP LaserJet'', Category = ''Printer'', Description = ''office printer'',
      Serial_Number = ''27'', Assigned_To = ''Kofi'', Department = ''Finance'',
      Purchase_Date = Some ''2023-06-01'', Purchase_Price = 3200, Condition = ''Good'',
      Location = ''Kumasi'', Status = ''In Use'', Warranty_End_Date = None,
      Maintenance_Schedule = '''', Disposal_Date = None, Notes = ''second floor''\<rparr>"

definition clock1 :: datetime where
  "clock1 = \<lparr>year = 2024, month = 3, day = 9, hour = 7, minute = 5, second = 0\<rparr>"

definition clock2 :: datetime where
  "clock2 = \<lparr>year = 2024, month = 3, day = 9, hour = 16, minute = 30, second = 12\<rparr>"

definition one_asset :: table where
  "one_asset = [row_of_record (new_record dell_form ''DEL-ACC-IT-0001'' ''2024-03-09 07:05:00'')]"

definition two_assets :: table where
  "two_assets =
     [row_of_record (new_record dell_form ''DEL-ACC-IT-0001'' ''2024-03-09 07:05:00''),
      row_of_record (new_record hp_form ''HP -KUM-FIN-0027'' ''2024-03-09 16:30:12'')]"

definition lenovo_form :: asset_form where
  "lenovo_form = dell_form\<lparr>Asset_Name := ''Lenovo'', Serial_Number := ''3''\<rparr>"

definition three_assets :: table where
  "three_assets =
     two_assets @
     [row_of_record (new_record lenovo_form ''LEN-ACC-IT-0003'' ''2024-03-10 09:00:00'')]"

definition clock3 :: datetime where
  "clock3 = \<lparr>year = 2024, month = 3, day = 10, hour = 9, minute = 0, second = 0\<rparr>"

text \<open>
  A stand-in for the library primitives, to run the credential store on concrete
  values: it is not SHA-256, not the rounds of PBKDF2 and not Base64.
\<close>

definition toy_crypto :: crypto where
  "toy_crypto =
     \<lparr>sha256 = take 32,
      pbkdf2_rounds = (\<lambda>key_block salt_bytes. key_block @ salt_bytes),
      b64encode = map char_of,
      b64decode = map of_char\<rparr>"

section \<open>Histories made of timestamps\<close>

text \<open>The history text that holds the given timestamps, oldest first.\<close>

fun join_history :: "string list \<Rightarrow> string" where
  "join_history [] = []"
| "join_history [x] = x"
| "join_history (x # y # ys) = x @ '' | '' @ join_history (y # ys)"

definition history_of :: "row \<Rightarrow> datetime list \<Rightarrow> bool" where
  "history_of r dts =
     (dict_get r ''update_count'' VNone = VInt (int (length dts)) \<and>
      dict_get r ''update_history'' VNone = VStr (join_history (map now_iso dts)))"

section \<open>Properties of the tag generator\<close>

lemma zfill_unsigned:
  "\<not> (case s of c # rest \<Rightarrow> is_sign c | [] \<Rightarrow> False) \<Longrightarrow> zfill w s = zero_pad_left w s"
  by (auto simp: zfill_def zero_pad_left_def is_sign_def split: list.splits)

lemma zfill_signed:
  "is_sign c \<Longrightarrow> zfill (Suc w) (c # rest) = c # zero_pad_left w rest"
  by (auto simp: zfill_def zero_pad_left_def is_sign_def)

lemma generate_asset_tag_prefix:
  "generate_asset_tag fd =
     tag_prefix fd @ (case fd ''Serial Number'' of
                        None \<Rightarrow> ''0000''
                      | Some s \<Rightarrow> if s \<noteq> [] then zfill 4 s else ''0000'')"
  by (simp add: generate_asset_tag_def tag_prefix_def first_three_chars_def str_or_def Let_def)

text \<open>
  The inline tag of the spreadsheet variant is the tag \<open>generate_asset_tag\<close> gives for
  the same four texts.
\<close>

lemma upper_defaults: "upper ''AST'' = ''AST''" "upper ''LOC'' = ''LOC''" "upper ''GEN'' = ''GEN''"
  by code_simp+

lemma new_tag_xlsx_generate_asset_tag:
  "new_tag_xlsx a l d s =
     generate_asset_tag [''Asset Name'' \<mapsto> a, ''Location'' \<mapsto> l, ''Department'' \<mapsto> d,
       ''Serial Number'' \<mapsto> s]"
  by (simp add: new_tag_xlsx_def generate_asset_tag_def str_or_def Let_def upper_defaults)

text \<open>
  Claim C1, as stated: the tag is the upper-cased first three characters of name,
  location and department (with the defaults \<open>AST\<close>, \<open>LOC\<close>, \<open>GEN\<close> for an empty or
  absent field), joined by \<open>-\<close>, followed by the serial number padded with zeros on the
  left to width 4. This fails for a serial number that begins with a sign: for the
  serial \<open>-5\<close> the code gives \<open>-005\<close>, not \<open>00-5\<close>.
\<close>

theorem generate_asset_tag_left_pad_counterexample:
  "generate_asset_tag [''Asset Name'' \<mapsto> ''Dell'', ''Location'' \<mapsto> ''Accra'',
      ''Department'' \<mapsto> ''IT'', ''Serial Number'' \<mapsto> ''-5'']
   \<noteq> spec_tag [''Asset Name'' \<mapsto> ''Dell'', ''Location'' \<mapsto> ''Accra'',
      ''Department'' \<mapsto> ''IT'', ''Serial Number'' \<mapsto> ''-5'']"
  by code_simp

text \<open>
  Claim C1, amended: for a serial number that does not begin with \<open>+\<close> or \<open>-\<close> the tag
  is the one the specification describes; for a serial number that begins with a sign
  the sign stays in front and the rest is padded with zeros on the left to width 3.
\<close>

theorem generate_asset_tag_zero_fill:
  "(\<not> signed_serial fd \<longrightarrow> generate_asset_tag fd = spec_tag fd) \<and>
   (\<forall>c rest. fd ''Serial Number'' = Some (c # rest) \<and> is_sign c \<longrightarrow>
      generate_asset_tag fd = tag_prefix fd @ c # zero_pad_left 3 rest)"
proof (intro conjI impI allI)
  assume "\<not> signed_serial fd"
  then show "generate_asset_tag fd = spec_tag fd"
    by (auto simp: generate_asset_tag_prefix spec_tag_def zero_pad_serial_def signed_serial_def
        zfill_unsigned split: option.splits list.splits)
next
  fix c rest
  assume "fd ''Serial Number'' = Some (c # rest) \<and> is_sign c"
  then show "generate_asset_tag fd = tag_prefix fd @ c # zero_pad_left 3 rest"
    using zfill_signed [of c 3 rest] by (simp add: generate_asset_tag_prefix numeral_eq_Suc)
qed

theorem generate_asset_tag_zero_fill_witness:
  "\<not> signed_serial [''Asset Name'' \<mapsto> ''pc'', ''Department'' \<mapsto> ''Finance'',
       ''Serial Number'' \<mapsto> ''42''] \<and>
   generate_asset_tag [''Asset Name'' \<mapsto> ''pc'', ''Department'' \<mapsto> ''Finance'',
       ''Serial Number'' \<mapsto> ''42''] = ''PC-LOC-FIN-0042'' \<and>
   is_sign (CHR ''-'') \<and>
   generate_asset_tag [''Asset Name'' \<mapsto> ''Dell'', ''Location'' \<mapsto> ''Accra'',
       ''Department'' \<mapsto> ''IT'', ''Serial Number'' \<mapsto> ''-5''] = ''DEL-ACC-IT--005''"
proof -
  let ?fd1 = "[''Asset Name'' \<mapsto> ''pc'', ''Department'' \<mapsto> ''Finance'',
       ''Serial Number'' \<mapsto> ''42'']"
  let ?fd2 = "[''Asset Name'' \<mapsto> ''Dell'', ''Location'' \<mapsto> ''Accra'',
       ''Department'' \<mapsto> ''IT'', ''Serial Number'' \<mapsto> ''-5'']"
  have u: "\<not> signed_serial ?fd1" by code_simp
  have "generate_asset_tag ?fd1 = spec_tag ?fd1"
    using generate_asset_tag_zero_fill [of ?fd1] u by blast
  moreover have "spec_tag ?fd1 = ''PC-LOC-FIN-0042''" by code_simp
  ultimately have 1: "generate_asset_tag ?fd1 = ''PC-LOC-FIN-0042''" by simp
  have s: "?fd2 ''Serial Number'' = Some (CHR ''-'' # ''5'') \<and> is_sign (CHR ''-'')"
    by code_simp
  have "generate_asset_tag ?fd2 = tag_prefix ?fd2 @ CHR ''-'' # zero_pad_left 3 ''5''"
    using generate_asset_tag_zero_fill [of ?fd2] s by blast
  moreover have "tag_prefix ?fd2 @ CHR ''-'' # zero_pad_left 3 ''5'' = ''DEL-ACC-IT--005''"
    by code_simp
  ultimately have 2: "generate_asset_tag ?fd2 = ''DEL-ACC-IT--005''" by simp
  from u 1 s 2 show ?thesis by blast
qed

subsection \<open>Shape of the tag\<close>

lemma split_on_no_sep: "d \<notin> set s \<Longrightarrow> split_on d s = [s]"
  by (induction s) auto

lemma split_on_append:
  "d \<notin> set a \<Longrightarrow> split_on d (a @ d # rest) = a # split_on d rest"
  by (induction a) auto

lemma upper_char_dash: "upper_char c = CHR ''-'' \<longleftrightarrow> c = CHR ''-''"
proof -
  have "char_of (of_char c - (32::nat)) \<noteq> CHR ''-''"
    if "97 \<le> (of_char c :: nat)" "(of_char c :: nat) \<le> 122"
  proof
    assume "char_of (of_char c - (32::nat)) = CHR ''-''"
    then have "of_char (char_of (of_char c - (32::nat)) :: char) = (of_char (CHR ''-'') :: nat)"
      by simp
    then have "(of_char c - (32::nat)) mod 256 = 45" by simp
    with that show False by simp
  qed
  moreover have "(of_char c :: nat) \<noteq> 45" if "97 \<le> (of_char c :: nat)"
    using that by simp
  moreover have "c = CHR ''-'' \<Longrightarrow> (of_char c :: nat) = 45" by simp
  ultimately show ?thesis by (auto simp: upper_char_def Let_def)
qed

lemma upper_ascii: "list_all is_ascii s \<Longrightarrow> upper s = map upper_char s"
  by (induction s) (simp_all add: upper_def)

lemma upper_no_dash:
  assumes "list_all (\<lambda>c. is_ascii c \<and> c \<noteq> CHR ''-'') s"
  shows "CHR ''-'' \<notin> set (upper s)"
proof -
  from assms have a: "list_all is_ascii s" and d: "CHR ''-'' \<notin> set s"
    by (auto simp: list_all_iff)
  from d show ?thesis
    unfolding upper_ascii [OF a] by auto (metis upper_char_dash)
qed

lemma length_upper: "list_all is_ascii s \<Longrightarrow> length (upper s) = length s"
  by (simp add: upper_ascii)

lemma segment_shape:
  assumes "field_ok v" "length pad = 3" "list_all (\<lambda>c. is_ascii c \<and> c \<noteq> CHR ''-'') pad"
  shows "length (upper (take 3 (str_or v pad))) = 3
       \<and> CHR ''-'' \<notin> set (upper (take 3 (str_or v pad)))"
proof -
  have ok: "list_all (\<lambda>c. is_ascii c \<and> c \<noteq> CHR ''-'') (take 3 (str_or v pad))"
    and len: "length (take 3 (str_or v pad)) = 3"
    using assms by (auto simp: field_ok_def str_or_def split: option.splits)
  from ok have "list_all is_ascii (take 3 (str_or v pad))"
    by (auto simp: list_all_iff)
  with len have "length (upper (take 3 (str_or v pad))) = 3"
    by (simp only: length_upper)
  with upper_no_dash [OF ok] show ?thesis by simp
qed

lemma default_segments:
  "list_all (\<lambda>c. is_ascii c \<and> c \<noteq> CHR ''-'') ''AST''"
  "list_all (\<lambda>c. is_ascii c \<and> c \<noteq> CHR ''-'') ''LOC''"
  "list_all (\<lambda>c. is_ascii c \<and> c \<noteq> CHR ''-'') ''GEN''"
  by (simp_all add: is_ascii_def)

lemma is_digit_not_dash: "is_digit c \<Longrightarrow> c \<noteq> CHR ''-''"
  by (auto simp: is_digit_def)

lemma digits_no_dash: "list_all is_digit s \<Longrightarrow> CHR ''-'' \<notin> set s"
  by (auto simp: list_all_iff dest: is_digit_not_dash)

lemma is_digit_zero: "is_digit (CHR ''0'')"
  by (simp add: is_digit_def)

lemma is_digit_not_sign: "is_digit c \<Longrightarrow> \<not> is_sign c"
  by (auto simp: is_digit_def is_sign_def)

lemma serial_shape:
  assumes "serial_ok v"
  shows "length (case v of None \<Rightarrow> ''0000'' | Some s \<Rightarrow> if s \<noteq> [] then zfill 4 s else ''0000'') = 4
       \<and> list_all is_digit
           (case v of None \<Rightarrow> ''0000'' | Some s \<Rightarrow> if s \<noteq> [] then zfill 4 s else ''0000'')"
proof (cases v)
  case None
  then show ?thesis by (simp add: is_digit_zero)
next
  case (Some s)
  with assms have s: "length s \<le> 4" "list_all is_digit s" by (simp_all add: serial_ok_def)
  show ?thesis
  proof (cases s)
    case Nil
    with Some show ?thesis by (simp add: is_digit_zero)
  next
    case (Cons c rest)
    with s have "\<not> is_sign c" by (simp add: is_digit_not_sign)
    with Cons have "zfill 4 s = replicate (4 - length s) (CHR ''0'') @ s"
      by (auto simp: zfill_def is_sign_def)
    with s Some Cons show ?thesis by (auto simp: is_digit_zero list_all_iff)
  qed
qed

text \<open>
  Claim C4, as stated: every generated tag has the shape \<open>XXX-XXX-XXX-NNNN\<close>, the last
  segment being exactly four digits. This fails for the department \<open>IT\<close> (two
  characters) and for a serial number of five digits, which \<open>zfill\<close> does not shorten.
\<close>

theorem tag_shape_counterexample:
  "\<not> tag_shape (generate_asset_tag [''Asset Name'' \<mapsto> ''Dell'', ''Location'' \<mapsto> ''Accra'',
       ''Department'' \<mapsto> ''IT'', ''Serial Number'' \<mapsto> ''12345''])"
  by code_simp

text \<open>
  Claim C4, amended: the tag has the shape \<open>XXX-XXX-XXX-NNNN\<close> when each of name,
  location and department is empty, absent or at least three characters long, its first
  three characters being ASCII characters other than \<open>-\<close>, and the serial number is
  empty, absent or at most four ASCII digits.
\<close>

theorem generate_asset_tag_shape:
  assumes "field_ok (fd ''Asset Name'')" and "field_ok (fd ''Location'')"
    and "field_ok (fd ''Department'')" and "serial_ok (fd ''Serial Number'')"
  shows "tag_shape (generate_asset_tag fd)"
proof -
  define a where "a = upper (take 3 (str_or (fd ''Asset Name'') ''AST''))"
  define l where "l = upper (take 3 (str_or (fd ''Location'') ''LOC''))"
  define d where "d = upper (take 3 (str_or (fd ''Department'') ''GEN''))"
  define s where "s = (case fd ''Serial Number'' of
                         None \<Rightarrow> ''0000''
                       | Some s \<Rightarrow> if s \<noteq> [] then zfill 4 s else ''0000'')"
  have a: "length a = 3" "CHR ''-'' \<notin> set a"
    using segment_shape [OF assms(1) _ default_segments(1)] by (simp_all add: a_def)
  have l: "length l = 3" "CHR ''-'' \<notin> set l"
    using segment_shape [OF assms(2) _ default_segments(2)] by (simp_all add: l_def)
  have d: "length d = 3" "CHR ''-'' \<notin> set d"
    using segment_shape [OF assms(3) _ default_segments(3)] by (simp_all add: d_def)
  have s: "length s = 4" "list_all is_digit s"
    using serial_shape [OF assms(4)] by (simp_all add: s_def)
  have tag: "generate_asset_tag fd = a @ CHR ''-'' # l @ CHR ''-'' # d @ CHR ''-'' # s"
    by (simp add: generate_asset_tag_def a_def l_def d_def s_def Let_def)
  have "split_on (CHR ''-'') (generate_asset_tag fd) = [a, l, d, s]"
    unfolding tag using a l d s by (simp add: split_on_append split_on_no_sep digits_no_dash)
  with a l d s show ?thesis by (simp add: tag_shape_def)
qed

theorem generate_asset_tag_shape_witness:
  "field_ok (Some ''Dell'') \<and> field_ok (Some ''Accra'') \<and> field_ok (Some ''Finance'') \<and>
   serial_ok (Some ''1'') \<and>
   tag_shape (generate_asset_tag [''Asset Name'' \<mapsto> ''Dell'', ''Location'' \<mapsto> ''Accra'',
     ''Department'' \<mapsto> ''Finance'', ''Serial Number'' \<mapsto> ''1''])"
proof -
  let ?fd = "[''Asset Name'' \<mapsto> ''Dell'', ''Location'' \<mapsto> ''Accra'',
     ''Department'' \<mapsto> ''Finance'', ''Serial Number'' \<mapsto> ''1'']"
  have 1: "field_ok (?fd ''Asset Name'')" by code_simp
  have 2: "field_ok (?fd ''Location'')" by code_simp
  have 3: "field_ok (?fd ''Department'')" by code_simp
  have 4: "serial_ok (?fd ''Serial Number'')" by code_simp
  have 5: "field_ok (Some ''Dell'') \<and> field_ok (Some ''Accra'') \<and> field_ok (Some ''Finance'') \<and>
    serial_ok (Some ''1'')" by code_simp
  show ?thesis using generate_asset_tag_shape [OF 1 2 3 4] 5 by blast
qed

section \<open>Properties of the asset repository\<close>

lemma assign_map_add:
  "map_of (assign updates r) =
     map_of r ++
     map_of (rev (map (\<lambda>(k, v). (py_to_sql_col k, store (py_to_sql_col k) v)) updates))"
  unfolding assign_def
proof (induction updates arbitrary: r)
  case Nil
  then show ?case by simp
next
  case (Cons u us)
  obtain k v where u: "u = (k, v)" by (cases u)
  have "(map_of r)(c \<mapsto> w) ++ m = map_of r ++ ([c \<mapsto> w] ++ m)" for m c w
    by (auto simp: map_add_def fun_eq_iff split: option.splits)
  then show ?case
    by (simp add: u Cons.IH update_conv' map_of_append del: fun_upd_apply) 
qed

lemma assign_other:
  "col \<notin> set (map (py_to_sql_col \<circ> fst) updates) \<Longrightarrow> map_of (assign updates r) col = map_of r col"
proof -
  assume a: "col \<notin> set (map (py_to_sql_col \<circ> fst) updates)"
  have "fst ` set (rev (map (\<lambda>(k, v). (py_to_sql_col k, store (py_to_sql_col k) v)) updates)) =
      set (map (py_to_sql_col \<circ> fst) updates)"
    by (force simp: image_iff)
  with a have "map_of (rev (map (\<lambda>(k, v). (py_to_sql_col k, store (py_to_sql_col k) v)) updates))
      col = None"
    by (simp add: map_of_eq_None_iff del: set_rev set_map)
  then show ?thesis by (simp add: assign_map_add map_add_def)
qed

lemma get_asset_None: "get_asset tag t = None \<longleftrightarrow> (\<forall>r \<in> set t. tag_of r \<noteq> VStr tag)"
  by (auto simp: get_asset_def find_None_iff)

lemma update_absent_map:
  "get_asset tag t = None \<Longrightarrow> map (\<lambda>r. if tag_of r = VStr tag then f r else r) t = t"
  by (induction t) (auto simp: get_asset_None)

lemma update_asset_Inr:
  "known_columns updates \<Longrightarrow> update_asset tag updates t = Inr t' \<Longrightarrow>
     t' = map (\<lambda>r. if tag_of r = VStr tag then assign updates r else r) t"
  by (auto simp: update_asset_def Let_def split: if_splits)

lemma update_asset_absent:
  assumes "get_asset tag t = None" and "distinct (text_tags t)" and "known_columns updates"
  shows "update_asset tag updates t =
           (if updates = [] then Inl OperationalError
            else if \<not> list_all bindable (map snd updates) then Inl OverflowError
            else Inr t)"
  using assms by (simp add: update_asset_def update_absent_map Let_def)

lemma text_tags_filter: "distinct (text_tags t) \<Longrightarrow> length (filter (\<lambda>r. tag_of r = VStr tag) t) \<le> 1"
proof (induction t)
  case Nil
  then show ?case by simp
next
  case (Cons r t)
  have in_tags: "tag \<in> set (text_tags t)" if "filter (\<lambda>r. tag_of r = VStr tag) t \<noteq> []"
  proof -
    from that obtain x where "x \<in> set t" "tag_of x = VStr tag"
      by (auto simp: filter_empty_conv)
    then show ?thesis by (force simp: text_tags_def)
  qed
  show ?case
  proof (cases "tag_of r = VStr tag")
    case True
    with Cons.prems have "tag \<notin> set (text_tags t)" "distinct (text_tags t)"
      by (simp_all add: text_tags_def)
    with in_tags have "filter (\<lambda>r. tag_of r = VStr tag) t = []" by blast
    with True show ?thesis by simp
  next
    case False
    with Cons show ?thesis by (cases "tag_of r") (simp_all add: text_tags_def)
  qed
qed

lemma run_two_assets:
  "run [] [(Add_New_Asset, None, dell_form, clock1), (Add_New_Asset, None, hp_form, clock2)] = two_assets"
  by code_simp

lemma form_norm_columns:
  "map (py_to_sql_col \<circ> fst) (form_norm form) =
     [''asset_name'', ''category'', ''description'', ''serial_number'', ''assigned_to'',
      ''department'', ''purchase_date'', ''purchase_price_ghs'', ''condition'', ''location'',
      ''status'', ''warranty_end_date'', ''maintenance_schedule'', ''disposal_date'', ''notes'']"
  by (simp add: form_norm_def py_to_sql_col_def)

lemma form_columns:
  assumes "k \<in> set (map fst (form_norm form))"
  shows "py_to_sql_col k \<in> set sql_columns \<and> py_to_sql_col k \<noteq> ''asset_tag''"
proof -
  from assms have "py_to_sql_col k \<in> set (map (py_to_sql_col \<circ> fst) (form_norm form))"
    by auto
  then show ?thesis
    unfolding form_norm_columns by (auto simp: sql_columns_def)
qed

lemma track_update_keys:
  "track_update existing now = Inr tracked \<Longrightarrow> map fst tracked = [''Update Count'', ''Update History'']"
  by (auto simp: track_update_def Let_def split: sum.splits if_splits val.splits)

lemma tracked_columns:
  "py_to_sql_col ''Last Updated'' = ''last_updated''"
  "py_to_sql_col ''Update Count'' = ''update_count''"
  "py_to_sql_col ''Update History'' = ''update_history''"
  by (simp_all add: py_to_sql_col_def)

lemma handler_columns:
  assumes "track_update existing now = Inr tracked"
    and "k \<in> set (map fst (form_norm form @ [(''Last Updated'', VStr now)] @ tracked))"
  shows "py_to_sql_col k \<in> set sql_columns \<and> py_to_sql_col k \<noteq> ''asset_tag''"
proof -
  from assms(2) have "k \<in> set (map fst (form_norm form)) \<or> k = ''Last Updated'' \<or> k \<in> set (map fst tracked)"
    by auto
  then show ?thesis
  proof (elim disjE)
    assume "k \<in> set (map fst (form_norm form))"
    then show ?thesis by (rule form_columns)
  next
    assume "k = ''Last Updated''"
    then show ?thesis by (simp add: tracked_columns sql_columns_def)
  next
    assume "k \<in> set (map fst tracked)"
    with track_update_keys [OF assms(1)] have "k = ''Update Count'' \<or> k = ''Update History''" by simp
    then show ?thesis by (auto simp: tracked_columns sql_columns_def)
  qed
qed

lemma handler_known_columns:
  assumes tr: "track_update existing now = Inr tracked"
  shows "known_columns (form_norm form @ [(''Last Updated'', VStr now)] @ tracked)"
proof -
  define ups where "ups = form_norm form @ [(''Last Updated'', VStr now)] @ tracked"
  have "py_to_sql_col (fst kv) \<in> set sql_columns" if "kv \<in> set ups" for kv
  proof -
    from that have "fst kv \<in> set (map fst ups)" by force
    then show ?thesis
      using handler_columns [OF tr, of "fst kv" form] unfolding ups_def by blast
  qed
  then have "known_columns ups"
    by (auto simp: known_columns_def list_all_iff)
  then show ?thesis by (simp only: ups_def)
qed

lemma form_norm_bindable: "list_all bindable (map snd (form_norm form))"
  by (simp add: form_norm_def opt_text_def split: option.splits)

lemma track_update_empty:
  "track_update [] now = Inr [(''Update Count'', VInt 1), (''Update History'', VStr now)]"
  by (simp add: track_update_def dict_get_def py_or_def)

lemma save_asset_update_unfold:
  assumes "t \<noteq> []" "tag \<noteq> []"
  shows "save_asset Update_Existing_Asset (Some tag) form dt t =
     (case track_update (case get_asset tag t of None \<Rightarrow> [] | Some r \<Rightarrow> r) (now_iso dt) of
        Inl e \<Rightarrow> Inl e
      | Inr tracked \<Rightarrow>
          update_asset tag (form_norm form @ [(''Last Updated'', VStr (now_iso dt))] @ tracked) t)"
  using assms by (simp add: save_asset_def Let_def)

text \<open>
  Claim C5, as stated: for a tag that is not in the repository, \<open>applyPartialUpdate\<close>
  fails with \<open>NotFoundError\<close> and leaves the collection unchanged. \<open>update_asset\<close>
  raises nothing there: the \<open>UPDATE\<close> statement matches no row and completes.
\<close>

theorem update_asset_absent_tag_counterexample:
  "get_asset ''HP -KUM-FIN-0027'' one_asset = None \<and>
   update_asset ''HP -KUM-FIN-0027'' [(''Notes'', VStr ''moved'')] one_asset = Inr one_asset"
  by code_simp

text \<open>
  Claim C5, amended: for a tag that is not in the repository and field changes whose
  keys \<open>_py_to_sql_col\<close> maps to columns of the table (the field labels, or the column
  names themselves), the stored collection is left unchanged and no not-found error is
  raised: \<open>update_asset\<close> completes normally, unless no field is supplied (the statement
  is then rejected with \<open>OperationalError\<close>) or a supplied integer is outside the 64-bit
  range (\<open>OverflowError\<close>). The form handler reports \<open>NoTagSelected\<close> when no tag is
  selected, and for a selected tag that is not stored it completes and saves nothing
  new.
\<close>

theorem update_asset_absent_tag:
  assumes "get_asset tag t = None" and "distinct (text_tags t)" and "known_columns updates"
  shows "update_asset tag updates t =
           (if updates = [] then Inl OperationalError
            else if \<not> list_all bindable (map snd updates) then Inl OverflowError
            else Inr t) \<and>
         save_asset Update_Existing_Asset None form dt t = Inl NoTagSelected \<and>
         (tag \<noteq> [] \<and> t \<noteq> [] \<longrightarrow>
            save_asset Update_Existing_Asset (Some tag) form dt t = Inr t)"
proof (intro conjI impI)
  show "update_asset tag updates t =
           (if updates = [] then Inl OperationalError
            else if \<not> list_all bindable (map snd updates) then Inl OverflowError
            else Inr t)"
    using assms by (rule update_asset_absent)
  show "save_asset Update_Existing_Asset None form dt t = Inl NoTagSelected"
    by (simp add: save_asset_def Let_def)
  assume a: "tag \<noteq> [] \<and> t \<noteq> []"
  define ups where "ups = form_norm form @ [(''Last Updated'', VStr (now_iso dt))] @
       [(''Update Count'', VInt 1), (''Update History'', VStr (now_iso dt))]"
  have known: "known_columns ups"
    unfolding ups_def using track_update_empty by (rule handler_known_columns)
  have bind: "list_all bindable (map snd ups)"
    by (simp add: ups_def form_norm_bindable)
  have ne: "ups \<noteq> []" by (simp add: ups_def)
  have "save_asset Update_Existing_Asset (Some tag) form dt t = update_asset tag ups t"
    using a assms(1) by (simp add: save_asset_update_unfold track_update_empty ups_def)
  also have "\<dots> = Inr t"
    using update_asset_absent [OF assms(1,2) known] bind ne by simp
  finally show "save_asset Update_Existing_Asset (Some tag) form dt t = Inr t" .
qed

theorem update_asset_absent_tag_witness:
  "get_asset ''HP -KUM-FIN-0027'' one_asset = None \<and> distinct (text_tags one_asset) \<and>
   known_columns [(''Notes'', VStr ''moved'')] \<and>
   update_asset ''HP -KUM-FIN-0027'' [(''Notes'', VStr ''moved'')] one_asset = Inr one_asset \<and>
   update_asset ''HP -KUM-FIN-0027'' [] one_asset = Inl OperationalError \<and>
   update_asset ''HP -KUM-FIN-0027'' [(''Update Count'', VInt (2 ^ 63))] one_asset =
     Inl OverflowError \<and>
   save_asset Update_Existing_Asset (Some ''HP -KUM-FIN-0027'') hp_form clock2 one_asset = Inr one_asset"
proof -
  have 1: "get_asset ''HP -KUM-FIN-0027'' one_asset = None" by code_simp
  have 2: "distinct (text_tags one_asset)" by code_simp
  have k1: "known_columns [(''Notes'', VStr ''moved'')]" by code_simp
  have k2: "known_columns []" by code_simp
  have k3: "known_columns [(''Update Count'', VInt (2 ^ 63))]" by code_simp
  have 3: "[(''Notes'', VStr ''moved'')] \<noteq> [] \<and>
     list_all bindable (map snd [(''Notes'', VStr ''moved'')])"
    by simp
  have 4: "''HP -KUM-FIN-0027'' \<noteq> [] \<and> one_asset \<noteq> []" by code_simp
  have 5: "\<not> list_all bindable (map snd [(''Update Count'', VInt (2 ^ 63))])" by simp
  have a: "update_asset ''HP -KUM-FIN-0027'' [(''Notes'', VStr ''moved'')] one_asset = Inr one_asset"
    using update_asset_absent_tag [OF 1 2 k1, THEN conjunct1] 3 by (simp only: if_False simp_thms)
  have b: "update_asset ''HP -KUM-FIN-0027'' [] one_asset = Inl OperationalError"
    using update_asset_absent_tag [OF 1 2 k2, THEN conjunct1] by (simp only: if_True simp_thms)
  have o: "update_asset ''HP -KUM-FIN-0027'' [(''Update Count'', VInt (2 ^ 63))] one_asset =
     Inl OverflowError"
    using update_asset_absent_tag [OF 1 2 k3, THEN conjunct1] 5
    by (simp only: if_True if_False simp_thms list.distinct)
  have c: "save_asset Update_Existing_Asset (Some ''HP -KUM-FIN-0027'') hp_form clock2 one_asset = Inr one_asset"
    using update_asset_absent_tag [OF 1 2 k2, THEN conjunct2, THEN conjunct2, THEN mp, OF 4] .
  from 1 2 k1 a b o c show ?thesis by (intro conjI)
qed

lemma save_asset_update_Inr:
  assumes "save_asset Update_Existing_Asset choice form dt t = Inr t'"
  obtains tag tracked where "choice = Some tag" "tag \<noteq> []" "t \<noteq> []"
    "track_update (case get_asset tag t of None \<Rightarrow> [] | Some r \<Rightarrow> r) (now_iso dt) = Inr tracked"
    "update_asset tag (form_norm form @ [(''Last Updated'', VStr (now_iso dt))] @ tracked) t = Inr t'"
  using assms
  by (auto simp: save_asset_def Let_def split: if_splits option.splits sum.splits)

lemma update_asset_rows:
  assumes k: "known_columns updates" and u: "update_asset tag updates t = Inr t'"
  shows "length t' = length t \<and> (\<forall>i < length t.
         (tag_of (t ! i) \<noteq> VStr tag \<longrightarrow> t' ! i = t ! i) \<and>
         (\<forall>col. col \<notin> set (map (py_to_sql_col \<circ> fst) updates) \<longrightarrow>
                map_of (t' ! i) col = map_of (t ! i) col) \<and>
         (''asset_tag'' \<notin> set (map (py_to_sql_col \<circ> fst) updates) \<longrightarrow>
                tag_of (t' ! i) = tag_of (t ! i)))"
proof -
  have t': "t' = map (\<lambda>r. if tag_of r = VStr tag then assign updates r else r) t"
    using k u by (rule update_asset_Inr)
  have other: "map_of (t' ! i) col = map_of (t ! i) col"
    if "i < length t" "col \<notin> set (map (py_to_sql_col \<circ> fst) updates)" for i col
    using that by (simp add: t' assign_other)
  have tag: "tag_of (t' ! i) = tag_of (t ! i)"
    if "i < length t" "''asset_tag'' \<notin> set (map (py_to_sql_col \<circ> fst) updates)" for i
    using other [OF that] by (simp add: tag_of_def dict_get_def)
  have len: "length t' = length t" by (simp add: t')
  have same: "t' ! i = t ! i" if "i < length t" "tag_of (t ! i) \<noteq> VStr tag" for i
    using that by (simp add: t')
  from len other tag same show ?thesis by blast
qed

lemma save_asset_keeps_tags:
  assumes s: "save_asset Update_Existing_Asset choice form dt t = Inr t''"
  shows "map tag_of t'' = map tag_of t"
proof -
  from s obtain tg tracked where
    tr: "track_update (case get_asset tg t of None \<Rightarrow> [] | Some r \<Rightarrow> r) (now_iso dt) = Inr tracked"
    and up: "update_asset tg (form_norm form @ [(''Last Updated'', VStr (now_iso dt))] @ tracked) t = Inr t''"
    by (rule save_asset_update_Inr)
  define ups where "ups = form_norm form @ [(''Last Updated'', VStr (now_iso dt))] @ tracked"
  have no_tag_key: "py_to_sql_col k \<noteq> ''asset_tag''" if "k \<in> set (map fst ups)" for k
    using handler_columns [OF tr, of k form] that unfolding ups_def by blast
  have no_tag: "''asset_tag'' \<notin> set (map (py_to_sql_col \<circ> fst) ups)"
  proof
    assume "''asset_tag'' \<in> set (map (py_to_sql_col \<circ> fst) ups)"
    then obtain k where "k \<in> set (map fst ups)" "py_to_sql_col k = ''asset_tag''"
      by force
    with no_tag_key show False by blast
  qed
  have known: "known_columns ups"
    unfolding ups_def using tr by (rule handler_known_columns)
  from up have up': "update_asset tg ups t = Inr t''" by (simp only: ups_def)
  have t'': "t'' = map (\<lambda>r. if tag_of r = VStr tg then assign ups r else r) t"
    using known up' by (rule update_asset_Inr)
  have keep: "tag_of (assign ups r) = tag_of r" for r
    using assign_other [OF no_tag, of r] by (simp add: tag_of_def dict_get_def)
  show "map tag_of t'' = map tag_of t"
    unfolding t'' by (induction t) (simp_all add: keep)
qed

lemma text_tags_cong:
  "(\<And>r. tag_of (f r) = tag_of r) \<Longrightarrow> text_tags (map f t) = text_tags t"
  by (induction t) (simp_all add: text_tags_def)

lemma update_asset_succeeds:
  assumes k: "known_columns updates" and ne: "updates \<noteq> []"
    and b: "list_all bindable (map snd updates)"
    and no_tag: "''asset_tag'' \<notin> set (map (py_to_sql_col \<circ> fst) updates)"
    and d: "distinct (text_tags t)"
  shows "update_asset tag updates t =
           Inr (map (\<lambda>r. if tag_of r = VStr tag then assign updates r else r) t)"
proof -
  have keep: "tag_of (assign updates r) = tag_of r" for r
    using assign_other [OF no_tag, of r] by (simp add: tag_of_def dict_get_def)
  have "text_tags (map (\<lambda>r. if tag_of r = VStr tag then assign updates r else r) t) = text_tags t"
    by (rule text_tags_cong) (simp add: keep)
  with k ne b d show ?thesis by (simp add: update_asset_def Let_def)
qed

text \<open>
  Claim C6, as stated: an update of a stored tag changes only the supplied fields of
  that one record, never its tag, and no other record. \<open>update_asset\<close> maps the key
  \<open>Asset Tag\<close> to the column \<open>asset_tag\<close> like any other key, so an update that
  supplies it does alter the tag.
\<close>

theorem update_asset_tag_counterexample:
  "map tag_of one_asset = [VStr ''DEL-ACC-IT-0001''] \<and>
   map_sum id (map tag_of)
     (update_asset ''DEL-ACC-IT-0001'' [(''Asset Tag'', VStr ''NEW'')] one_asset) = Inr [VStr ''NEW'']"
  by code_simp

text \<open>
  Claim C6, amended: for field changes whose keys \<open>_py_to_sql_col\<close> maps to columns of
  the table (the field labels, or the column names themselves), a successful
  \<open>update_asset\<close> keeps the number of rows, leaves every row with another tag as it is,
  and keeps in every row the value of each column that is not supplied; the tag is kept
  unless the tag column itself is supplied, and under the primary key at most one row
  has the tag. Such an update does succeed when at least one field is supplied, the tag
  column is not among them and every supplied integer is in the 64-bit range. The form
  handler never supplies the tag column: a successful update through the form keeps
  every tag.
\<close>

theorem update_asset_frame:
  "(known_columns updates \<and> update_asset tag updates t = Inr t' \<longrightarrow>
      length t' = length t \<and>
      (\<forall>i < length t.
         (tag_of (t ! i) \<noteq> VStr tag \<longrightarrow> t' ! i = t ! i) \<and>
         (\<forall>col. col \<notin> set (map (py_to_sql_col \<circ> fst) updates) \<longrightarrow>
                map_of (t' ! i) col = map_of (t ! i) col) \<and>
         (''asset_tag'' \<notin> set (map (py_to_sql_col \<circ> fst) updates) \<longrightarrow>
                tag_of (t' ! i) = tag_of (t ! i))) \<and>
      (distinct (text_tags t) \<longrightarrow> length (filter (\<lambda>r. tag_of r = VStr tag) t) \<le> 1)) \<and>
   (known_columns updates \<and> updates \<noteq> [] \<and> list_all bindable (map snd updates) \<and>
    ''asset_tag'' \<notin> set (map (py_to_sql_col \<circ> fst) updates) \<and> distinct (text_tags t) \<longrightarrow>
      update_asset tag updates t =
        Inr (map (\<lambda>r. if tag_of r = VStr tag then assign updates r else r) t)) \<and>
   (save_asset Update_Existing_Asset choice form dt t = Inr t'' \<longrightarrow>
      map tag_of t'' = map tag_of t)"
proof -
  have 1: "known_columns updates \<and> update_asset tag updates t = Inr t' \<longrightarrow>
      length t' = length t \<and>
      (\<forall>i < length t.
         (tag_of (t ! i) \<noteq> VStr tag \<longrightarrow> t' ! i = t ! i) \<and>
         (\<forall>col. col \<notin> set (map (py_to_sql_col \<circ> fst) updates) \<longrightarrow>
                map_of (t' ! i) col = map_of (t ! i) col) \<and>
         (''asset_tag'' \<notin> set (map (py_to_sql_col \<circ> fst) updates) \<longrightarrow>
                tag_of (t' ! i) = tag_of (t ! i))) \<and>
      (distinct (text_tags t) \<longrightarrow> length (filter (\<lambda>r. tag_of r = VStr tag) t) \<le> 1)"
    using update_asset_rows [of updates tag t t'] text_tags_filter [of t tag] by blast
  have 2: "known_columns updates \<and> updates \<noteq> [] \<and> list_all bindable (map snd updates) \<and>
    ''asset_tag'' \<notin> set (map (py_to_sql_col \<circ> fst) updates) \<and> distinct (text_tags t) \<longrightarrow>
      update_asset tag updates t =
        Inr (map (\<lambda>r. if tag_of r = VStr tag then assign updates r else r) t)"
  proof
    assume a: "known_columns updates \<and> updates \<noteq> [] \<and> list_all bindable (map snd updates) \<and>
      ''asset_tag'' \<notin> set (map (py_to_sql_col \<circ> fst) updates) \<and> distinct (text_tags t)"
    show "update_asset tag updates t =
        Inr (map (\<lambda>r. if tag_of r = VStr tag then assign updates r else r) t)"
      by (rule update_asset_succeeds
          [OF a [THEN conjunct1] a [THEN conjunct2, THEN conjunct1]
            a [THEN conjunct2, THEN conjunct2, THEN conjunct1]
            a [THEN conjunct2, THEN conjunct2, THEN conjunct2, THEN conjunct1]
            a [THEN conjunct2, THEN conjunct2, THEN conjunct2, THEN conjunct2]])
  qed
  have 3: "save_asset Update_Existing_Asset choice form dt t = Inr t'' \<longrightarrow>
      map tag_of t'' = map tag_of t"
    using save_asset_keeps_tags [of choice form dt t t''] by blast
  show ?thesis by (rule conjI [OF 1 conjI [OF 2 3]])
qed

theorem update_asset_frame_witness:
  "update_asset ''DEL-ACC-IT-0001'' [(''Notes'', VStr ''moved'')] two_assets =
     Inr [AList.update ''notes'' (VStr ''moved'') (two_assets ! 0), two_assets ! 1] \<and>
   known_columns [(''Notes'', VStr ''moved'')] \<and>
   tag_of (two_assets ! 1) \<noteq> VStr ''DEL-ACC-IT-0001'' \<and>
   ''asset_name'' \<notin> set (map (py_to_sql_col \<circ> fst) [(''Notes'', VStr ''moved'')]) \<and>
   ''asset_tag'' \<notin> set (map (py_to_sql_col \<circ> fst) [(''Notes'', VStr ''moved'')]) \<and>
   distinct (text_tags two_assets) \<and>
   map_of (AList.update ''notes'' (VStr ''moved'') (two_assets ! 0)) ''asset_name'' =
     map_of (two_assets ! 0) ''asset_name'' \<and>
   tag_of (AList.update ''notes'' (VStr ''moved'') (two_assets ! 0)) = tag_of (two_assets ! 0) \<and>
   length (filter (\<lambda>r. tag_of r = VStr ''DEL-ACC-IT-0001'') two_assets) \<le> 1 \<and>
   [(''Notes'', VStr ''moved'')] \<noteq> [] \<and>
   list_all bindable (map snd [(''Notes'', VStr ''moved'')]) \<and>
   update_asset ''DEL-ACC-IT-0001'' [(''Notes'', VStr ''moved'')] two_assets =
     Inr (map (\<lambda>r. if tag_of r = VStr ''DEL-ACC-IT-0001''
                     then assign [(''Notes'', VStr ''moved'')] r else r) two_assets) \<and>
   map_sum id (map tag_of)
     (save_asset Update_Existing_Asset (Some ''DEL-ACC-IT-0001'') dell_form clock2 two_assets) =
     Inr (map tag_of two_assets)"
proof -
  let ?t' = "[AList.update ''notes'' (VStr ''moved'') (two_assets ! 0), two_assets ! 1]"
  have u: "update_asset ''DEL-ACC-IT-0001'' [(''Notes'', VStr ''moved'')] two_assets = Inr ?t'"
    by code_simp
  have k: "known_columns [(''Notes'', VStr ''moved'')]" by code_simp
  have o: "tag_of (two_assets ! 1) \<noteq> VStr ''DEL-ACC-IT-0001''" by code_simp
  have c1: "''asset_name'' \<notin> set (map (py_to_sql_col \<circ> fst) [(''Notes'', VStr ''moved'')])"
    by code_simp
  have c2: "''asset_tag'' \<notin> set (map (py_to_sql_col \<circ> fst) [(''Notes'', VStr ''moved'')])"
    by code_simp
  have d: "distinct (text_tags two_assets)" by code_simp
  have l: "0 < length two_assets" by code_simp
  obtain t'' where s: "save_asset Update_Existing_Asset (Some ''DEL-ACC-IT-0001'') dell_form clock2
      two_assets = Inr t''"
  proof -
    have "\<not> isl (save_asset Update_Existing_Asset (Some ''DEL-ACC-IT-0001'') dell_form clock2
      two_assets)" by code_simp
    then show ?thesis using that
      by (cases "save_asset Update_Existing_Asset (Some ''DEL-ACC-IT-0001'') dell_form clock2
      two_assets") simp_all
  qed
  note A = update_asset_frame [THEN conjunct1, THEN mp, OF conjI [OF k u]]
  note B = A [THEN conjunct2, THEN conjunct1, THEN spec, THEN mp, OF l]
  note B1 = B [THEN conjunct2, THEN conjunct1, THEN spec, THEN mp, OF c1]
  note B2 = B [THEN conjunct2, THEN conjunct2, THEN mp, OF c2]
  note 3 = A [THEN conjunct2, THEN conjunct2, THEN mp, OF d]
  have ne: "[(''Notes'', VStr ''moved'')] \<noteq> []" by simp
  have b: "list_all bindable (map snd [(''Notes'', VStr ''moved'')])" by simp
  note 4 = update_asset_frame [THEN conjunct2, THEN conjunct2, THEN mp, OF s]
  note 6 = update_asset_frame [THEN conjunct2, THEN conjunct1, THEN mp,
      OF conjI [OF k conjI [OF ne conjI [OF b conjI [OF c2 d]]]]]
  have 5: "map_sum id (map tag_of)
     (save_asset Update_Existing_Asset (Some ''DEL-ACC-IT-0001'') dell_form clock2 two_assets) =
     Inr (map tag_of two_assets)" by (simp only: s 4 map_sum.simps)
  have n1: "map_of (AList.update ''notes'' (VStr ''moved'') (two_assets ! 0)) ''asset_name'' =
     map_of (two_assets ! 0) ''asset_name''" using B1 by (simp only: nth_Cons_0)
  have n2: "tag_of (AList.update ''notes'' (VStr ''moved'') (two_assets ! 0)) = tag_of (two_assets ! 0)"
    using B2 by (simp only: nth_Cons_0)
  from u k o c1 c2 d n1 n2 3 ne b 6 5 show ?thesis by (intro conjI)
qed

subsection \<open>Duplicate tags\<close>

lemma tag_of_row_of_record: "tag_of (row_of_record r) = VStr (Asset_Tag r)"
  by (simp add: tag_of_def dict_get_def row_of_record_def)

lemma Asset_Tag_new_record: "Asset_Tag (new_record form tag now) = tag"
  by (simp add: new_record_def asset_form.defs asset_record.defs)

lemma get_asset_Some_iff: "(\<exists>r. get_asset tag t = Some r) \<longleftrightarrow> (\<exists>r \<in> set t. tag_of r = VStr tag)"
  using get_asset_None [of tag t] by auto

lemma save_asset_add_Inr:
  assumes "save_asset Add_New_Asset choice form dt t = Inr t'"
  shows "get_asset (generate_asset_tag (text_entries (form_norm form))) t = None \<and>
         t' = t @ [row_of_record (new_record form
                 (generate_asset_tag (text_entries (form_norm form))) (now_iso dt))]"
  using assms
  by (auto simp: save_asset_def Let_def insert_asset_def split: option.splits if_splits)

text \<open>
  The SQLite variant rejects the second of two submits that resolve to the same tag, at
  the handler (\<open>TagExists\<close>) and, were the handler's test left out, at the primary key
  (\<open>IntegrityError\<close>); the table then holds exactly one row with that tag.
\<close>

lemma save_asset_rejects_duplicate_tag:
  assumes "save_asset Add_New_Asset choice1 form1 dt1 t = Inr t1"
    and "generate_asset_tag (text_entries (form_norm form2)) =
         generate_asset_tag (text_entries (form_norm form1))"
  shows "save_asset Add_New_Asset choice2 form2 dt2 t1 =
           Inl (TagExists (generate_asset_tag (text_entries (form_norm form1)))) \<and>
         insert_asset (new_record form2 (generate_asset_tag (text_entries (form_norm form2)))
           (now_iso dt2)) t1 = Inl IntegrityError \<and>
         length (filter (\<lambda>r. tag_of r = VStr (generate_asset_tag (text_entries (form_norm form1)))) t1) = 1"
proof -
  define tag where "tag = generate_asset_tag (text_entries (form_norm form1))"
  from save_asset_add_Inr [OF assms(1)]
  have none: "get_asset tag t = None"
    and t1: "t1 = t @ [row_of_record (new_record form1 tag (now_iso dt1))]"
    by (simp_all add: tag_def)
  have last: "tag_of (row_of_record (new_record form1 tag (now_iso dt1))) = VStr tag"
    by (simp add: tag_of_row_of_record Asset_Tag_new_record)
  have "\<exists>r \<in> set t1. tag_of r = VStr tag" using last by (auto simp: t1)
  then obtain r where r: "get_asset tag t1 = Some r" using get_asset_Some_iff by blast
  have 1: "save_asset Add_New_Asset choice2 form2 dt2 t1 = Inl (TagExists tag)"
    using r assms(2) by (simp add: save_asset_def Let_def tag_def)
  have 2: "insert_asset (new_record form2 (generate_asset_tag (text_entries (form_norm form2)))
           (now_iso dt2)) t1 = Inl IntegrityError"
    using last assms(2) by (auto simp: insert_asset_def Asset_Tag_new_record t1 tag_def)
  have "filter (\<lambda>r. tag_of r = VStr tag) t = []"
    using none by (auto simp: get_asset_None filter_empty_conv)
  then have 3: "length (filter (\<lambda>r. tag_of r = VStr tag) t1) = 1"
    using last by (simp add: t1)
  from 1 2 3 show ?thesis by (simp add: tag_def)
qed

text \<open>
  Claim C3: of two records that resolve to the same generated tag the first is inserted
  and the second is rejected, so that exactly one stored record has the tag. The
  spreadsheet variant's ``Add New Asset'' branch has no such test: submitting the form
  for Dell / Accra / IT / 1 twice on an empty register leaves two rows with the tag
  \<open>DEL-ACC-IT-0001\<close>.
\<close>

theorem xlsx_add_new_asset_duplicate_tag:
  "xlsx_tags (xlsx_add_new_asset dell_form clock2 (xlsx_add_new_asset dell_form clock1 [])) =
     [VStr ''DEL-ACC-IT-0001'', VStr ''DEL-ACC-IT-0001'']"
  by code_simp

text \<open>The same two submits in the SQLite variant: the second is rejected.\<close>

lemma save_asset_duplicate_example:
  "save_asset Add_New_Asset None dell_form clock2 one_asset = Inl (TagExists ''DEL-ACC-IT-0001'')"
  by code_simp

subsection \<open>Listing\<close>

lemma form_norm_no_date_added: "map_of (form_norm form) ''Date Added'' = None"
  by (simp add: form_norm_def)

lemma form_norm_no_asset_tag: "map_of (form_norm form) ''Asset Tag'' = None"
  by (simp add: form_norm_def)

lemma form_data_date_added:
  "dict_get (form_norm form @ (''Asset Tag'', a) # (''Date Added'', v) # rest) ''Date Added'' VNone = v"
  by (simp add: dict_get_def map_add_def form_norm_no_date_added)

lemma form_data_asset_tag:
  "dict_get (form_norm form @ (''Asset Tag'', a) # rest) ''Asset Tag'' VNone = a"
  by (simp add: dict_get_def map_add_def form_norm_no_asset_tag)

lemma xlsx_add_new_asset_dates:
  "map (\<lambda>r. dict_get r ''Date Added'' VNone) (xlsx_add_new_asset form dt df) =
     map (\<lambda>r. dict_get r ''Date Added'' VNone) df @ [VStr (now_iso dt)]"
  by (simp add: xlsx_add_new_asset_def Let_def form_data_date_added)

lemma xlsx_add_new_asset_tags:
  "xlsx_tags (xlsx_add_new_asset form dt df) =
     xlsx_tags df @
     [VStr (new_tag_xlsx (Asset_Name form) (Location form) (Department form) (Serial_Number form))]"
  by (simp add: xlsx_tags_def xlsx_add_new_asset_def Let_def form_data_asset_tag)

lemma now_iso_examples:
  "now_iso clock1 = ''2024-03-09 07:05:00''" "now_iso clock2 = ''2024-03-09 16:30:12''"
  by code_simp+

text \<open>
  Claim C8, as stated: \<open>listAll\<close> returns every stored record, newest first. The
  spreadsheet variant lists the register in the order of its rows, and the ``Add New
  Asset'' branch appends the new row below the others: after two additions the register
  that is saved has the older record first.
\<close>

theorem xlsx_add_new_asset_order_counterexample:
  "map (\<lambda>r. dict_get r ''Date Added'' VNone)
     (xlsx_add_new_asset hp_form clock2 (xlsx_add_new_asset dell_form clock1 [])) =
     [VStr ''2024-03-09 07:05:00'', VStr ''2024-03-09 16:30:12''] \<and>
   \<not> newest_first xlsx_date_added_key
     (xlsx_add_new_asset hp_form clock2 (xlsx_add_new_asset dell_form clock1 []))"
proof -
  let ?df = "xlsx_add_new_asset hp_form clock2 (xlsx_add_new_asset dell_form clock1 [])"
  have dates: "map (\<lambda>r. dict_get r ''Date Added'' VNone) ?df =
     [VStr ''2024-03-09 07:05:00'', VStr ''2024-03-09 16:30:12'']"
    by (simp only: xlsx_add_new_asset_dates list.map append_Nil now_iso_examples append.simps)
  have "newest_first xlsx_date_added_key ?df =
      sorted_wrt (\<lambda>a b. sql_key b \<le> sql_key a) (map (\<lambda>r. dict_get r ''Date Added'' VNone) ?df)"
    by (simp add: newest_first_def xlsx_date_added_key_def sorted_wrt_map)
  also have "\<dots> = sorted_wrt (\<lambda>a b. sql_key b \<le> sql_key a)
      [VStr ''2024-03-09 07:05:00'', VStr ''2024-03-09 16:30:12'']"
    by (simp only: dates)
  also have "\<dots> = False" by code_simp
  finally show ?thesis using dates by simp
qed

text \<open>
  Claim C8, amended: in the SQLite variant \<open>get_all_assets_df\<close> returns every stored
  record (the same rows with the same multiplicities), ordered by \<open>date_added\<close>
  descending. In the spreadsheet variant new records are appended: the register saved
  by ``Add New Asset'' has one more row than the register that was loaded, and its tag
  column and its \<open>Date Added\<close> column are those of the loaded register followed by the
  new tag and the time of the submit, so that the register is in the order of addition,
  oldest first.
\<close>

theorem get_all_assets_df_newest_first:
  "mset (get_all_assets_df t) = mset t \<and>
   newest_first date_added_key (get_all_assets_df t) \<and>
   length (xlsx_add_new_asset form dt df) = Suc (length df) \<and>
   xlsx_tags (xlsx_add_new_asset form dt df) =
     xlsx_tags df @
     [VStr (new_tag_xlsx (Asset_Name form) (Location form) (Department form)
        (Serial_Number form))] \<and>
   map (\<lambda>r. dict_get r ''Date Added'' VNone) (xlsx_add_new_asset form dt df) =
     map (\<lambda>r. dict_get r ''Date Added'' VNone) df @ [VStr (now_iso dt)]"
proof (intro conjI)
  show "mset (get_all_assets_df t) = mset t"
    by (simp add: get_all_assets_df_def)
  have "sorted (map date_added_key (sort_key date_added_key t))"
    by (rule sorted_sort_key)
  then have "sorted_wrt (\<lambda>a b. date_added_key a \<le> date_added_key b) (sort_key date_added_key t)"
    by (simp add: sorted_map)
  then show "newest_first date_added_key (get_all_assets_df t)"
    by (simp add: newest_first_def get_all_assets_df_def sorted_wrt_rev)
  show "length (xlsx_add_new_asset form dt df) = Suc (length df)"
    by (simp add: xlsx_add_new_asset_def Let_def)
  show "xlsx_tags (xlsx_add_new_asset form dt df) =
     xlsx_tags df @
     [VStr (new_tag_xlsx (Asset_Name form) (Location form) (Department form)
        (Serial_Number form))]"
    by (rule xlsx_add_new_asset_tags)
  show "map (\<lambda>r. dict_get r ''Date Added'' VNone) (xlsx_add_new_asset form dt df) =
     map (\<lambda>r. dict_get r ''Date Added'' VNone) df @ [VStr (now_iso dt)]"
    by (rule xlsx_add_new_asset_dates)
qed

lemma get_all_assets_df_example:
  "map (\<lambda>r. dict_get r ''asset_tag'' VNone) (get_all_assets_df three_assets) =
     [VStr ''LEN-ACC-IT-0003'', VStr ''HP -KUM-FIN-0027'', VStr ''DEL-ACC-IT-0001'']"
  by code_simp

section \<open>Properties of the reporting view\<close>

text \<open>
  Claim C9: each categorical filter (category, department, condition, status) keeps
  exactly the rows whose value is a member of the filter list when the list is not
  empty, and every row when it is empty; for three rows with the categories Laptop,
  Laptop, Printer the filter \<open>category = [Laptop]\<close> keeps two rows and the category
  chart counts \<open>Laptop: 2\<close>.
\<close>

theorem dashboard_filter_membership:
  "dashboard_filter f_category f_dept f_cond f_status rows =
     filter (\<lambda>r. (f_category = [] \<or> cell r ''category'' \<in> set f_category) \<and>
                 (f_dept = [] \<or> cell r ''department'' \<in> set f_dept) \<and>
                 (f_cond = [] \<or> cell r ''condition'' \<in> set f_cond) \<and>
                 (f_status = [] \<or> cell r ''status'' \<in> set f_status)) rows \<and>
   (map (\<lambda>r. cell r ''category'') rows = [VStr ''Laptop'', VStr ''Laptop'', VStr ''Printer''] \<longrightarrow>
      length (dashboard_filter [VStr ''Laptop''] [] [] [] rows) = 2 \<and>
      category_chart (dashboard_filter [VStr ''Laptop''] [] [] [] rows) = [(VStr ''Laptop'', 2)])"
proof (intro conjI impI)
  show "dashboard_filter f_category f_dept f_cond f_status rows =
     filter (\<lambda>r. (f_category = [] \<or> cell r ''category'' \<in> set f_category) \<and>
                 (f_dept = [] \<or> cell r ''department'' \<in> set f_dept) \<and>
                 (f_cond = [] \<or> cell r ''condition'' \<in> set f_cond) \<and>
                 (f_status = [] \<or> cell r ''status'' \<in> set f_status)) rows"
    by (auto simp: dashboard_filter_def Let_def isin_def intro: filter_cong)
next
  assume cats: "map (\<lambda>r. cell r ''category'') rows = [VStr ''Laptop'', VStr ''Laptop'', VStr ''Printer'']"
  then obtain r1 r2 r3 where rows: "rows = [r1, r2, r3]"
    and c: "cell r1 ''category'' = VStr ''Laptop''" "cell r2 ''category'' = VStr ''Laptop''"
      "cell r3 ''category'' = VStr ''Printer''"
    by (auto simp: map_eq_Cons_conv)
  have f: "dashboard_filter [VStr ''Laptop''] [] [] [] rows = [r1, r2]"
    by (simp add: dashboard_filter_def Let_def isin_def rows c)
  show "length (dashboard_filter [VStr ''Laptop''] [] [] [] rows) = 2"
    by (simp add: f)
  show "category_chart (dashboard_filter [VStr ''Laptop''] [] [] [] rows) = [(VStr ''Laptop'', 2)]"
    by (simp add: f category_chart_def value_counts_def c)
qed

theorem dashboard_filter_membership_witness:
  "map (\<lambda>r. cell r ''category'') [two_assets ! 0, three_assets ! 2, two_assets ! 1] =
     [VStr ''Laptop'', VStr ''Laptop'', VStr ''Printer''] \<and>
   length (dashboard_filter [VStr ''Laptop''] [] [] []
     [two_assets ! 0, three_assets ! 2, two_assets ! 1]) = 2 \<and>
   category_chart (dashboard_filter [VStr ''Laptop''] [] [] []
     [two_assets ! 0, three_assets ! 2, two_assets ! 1]) = [(VStr ''Laptop'', 2)]"
proof -
  have h: "map (\<lambda>r. cell r ''category'') [two_assets ! 0, three_assets ! 2, two_assets ! 1] =
     [VStr ''Laptop'', VStr ''Laptop'', VStr ''Printer'']"
    by code_simp
  from dashboard_filter_membership [THEN conjunct2, THEN mp, OF h] h show ?thesis by blast
qed

section \<open>Properties of the credential store\<close>

lemma utf8_append: "utf8 (s @ s') = utf8 s @ utf8 s'"
  by (simp add: utf8_def)

lemma utf8_nul: "utf8 (replicate n (CHR 0x00)) = replicate n 0"
  by (induction n) (simp_all add: utf8_def)

lemma hmac_key_zero_padding:
  assumes "length key + n \<le> 64"
  shows "hmac_key c (key @ replicate n 0) = hmac_key c key"
proof -
  have "replicate n 0 @ replicate (64 - (length key + n)) (0::nat) = replicate (64 - length key) 0"
    using assms by (simp add: replicate_add [symmetric] del: replicate_add)
  then show ?thesis using assms by (simp add: hmac_key_def Let_def)
qed

lemma pbkdf2_hash_nul:
  "length (utf8 p) + n \<le> 64 \<Longrightarrow>
     pbkdf2_hash c (p @ replicate n (CHR 0x00)) salt_bytes = pbkdf2_hash c p salt_bytes"
  by (simp add: pbkdf2_hash_def pbkdf2_hmac_sha256_def utf8_append utf8_nul
      hmac_key_zero_padding)

text \<open>
  Claim C7, as stated: after \<open>upsertCredential(u, p, role)\<close>, \<open>verifyCredential\<close> returns
  \<open>(false, none)\<close> for every password other than \<open>p\<close>. HMAC pads a key shorter than its
  block with zero bytes, so that PBKDF2-HMAC-SHA256 derives the same verifier from \<open>p\<close>
  and from \<open>p\<close> followed by a NUL character: after \<open>add_user\<close> with the password
  \<open>s3cret\<close>, \<open>verify_user\<close> accepts the password \<open>s3cret\<close> followed by NUL.
\<close>

theorem verify_user_other_password_counterexample:
  "''s3cret'' @ [CHR 0x00] \<noteq> ''s3cret'' \<and>
   map_sum id (verify_user toy_crypto ''ama'' (''s3cret'' @ [CHR 0x00]))
     (add_user toy_crypto [7, 200, 31] ''ama'' ''s3cret'' ''user'' Map.empty) =
     Inr (True, Some ''user'')"
proof -
  have r: "b64decode toy_crypto (b64encode toy_crypto [7, 200, 31]) = [7, 200, 31]"
    by (simp add: toy_crypto_def)
  have "pbkdf2_hash toy_crypto (''s3cret'' @ replicate 1 (CHR 0x00)) [7, 200, 31] =
      pbkdf2_hash toy_crypto ''s3cret'' [7, 200, 31]"
    by (rule pbkdf2_hash_nul) (simp add: utf8_def)
  then have h: "pbkdf2_hash toy_crypto (''s3cret'' @ [CHR 0x00]) [7, 200, 31] =
      pbkdf2_hash toy_crypto ''s3cret'' [7, 200, 31]"
    by simp
  have "map_sum id (verify_user toy_crypto ''ama'' (''s3cret'' @ [CHR 0x00]))
     (add_user toy_crypto [7, 200, 31] ''ama'' ''s3cret'' ''user'' Map.empty) =
     Inr (True, Some ''user'')"
    using r h by (simp add: add_user_def verify_user_def Let_def)
  then show ?thesis by simp
qed

text \<open>
  Claim C7, amended: immediately after \<open>upsertCredential(u, p, role)\<close> with a valid role,
  \<open>verifyCredential(u, p)\<close> returns \<open>(true, role)\<close>; for a username that is not in the
  store it returns \<open>(false, none)\<close>; for any password \<open>p'\<close> it returns \<open>(false, none)\<close>
  when the verifier derived from \<open>p'\<close> and the stored salt differs from the stored
  verifier, and \<open>(true, role)\<close> when it is the same, which is the case for \<open>p\<close> followed
  by NUL characters up to the 64 bytes of the HMAC block. The hash, the rounds of the key
  derivation and the Base64 codec are parameters: decoding is assumed to invert
  encoding on the salt. An invalid role is refused with \<open>ValueError\<close>.
\<close>

theorem verify_user_round_trip:
  "(user_role \<in> {''admin'', ''user''} \<and> b64decode c (b64encode c salt_bytes) = salt_bytes \<longrightarrow>
      (\<exists>us'. add_user c salt_bytes u p user_role us = Inr us' \<and>
             verify_user c u p us' = (True, Some user_role) \<and>
             (\<forall>p'. verify_user c u p' us' =
                     (if pbkdf2_hash c p' salt_bytes = pbkdf2_hash c p salt_bytes
                      then (True, Some user_role) else (False, None))) \<and>
             (\<forall>n. length (utf8 p) + n \<le> 64 \<longrightarrow>
                    verify_user c u (p @ replicate n (CHR 0x00)) us' = (True, Some user_role)))) \<and>
   (us u' = None \<longrightarrow> verify_user c u' p us = (False, None)) \<and>
   (user_role \<notin> {''admin'', ''user''} \<longrightarrow> add_user c salt_bytes u p user_role us = Inl ValueError)"
proof (intro conjI impI)
  assume a: "user_role \<in> {''admin'', ''user''} \<and> b64decode c (b64encode c salt_bytes) = salt_bytes"
  define us' where "us' = us(u \<mapsto> \<lparr>password_hash = pbkdf2_hash c p salt_bytes,
      salt = b64encode c salt_bytes, role = user_role\<rparr>)"
  have 1: "add_user c salt_bytes u p user_role us = Inr us'"
    using a by (simp add: add_user_def Let_def us'_def)
  have 2: "verify_user c u p' us' =
      (if pbkdf2_hash c p' salt_bytes = pbkdf2_hash c p salt_bytes
       then (True, Some user_role) else (False, None))" for p'
    using a by (simp add: verify_user_def Let_def us'_def)
  have 3: "verify_user c u (p @ replicate n (CHR 0x00)) us' = (True, Some user_role)"
    if "length (utf8 p) + n \<le> 64" for n
    using that by (simp add: 2 pbkdf2_hash_nul)
  have 4: "verify_user c u p us' = (True, Some user_role)"
    by (simp add: 2)
  from 1 2 3 4 show "\<exists>us'. add_user c salt_bytes u p user_role us = Inr us' \<and>
             verify_user c u p us' = (True, Some user_role) \<and>
             (\<forall>p'. verify_user c u p' us' =
                     (if pbkdf2_hash c p' salt_bytes = pbkdf2_hash c p salt_bytes
                      then (True, Some user_role) else (False, None))) \<and>
             (\<forall>n. length (utf8 p) + n \<le> 64 \<longrightarrow>
                    verify_user c u (p @ replicate n (CHR 0x00)) us' = (True, Some user_role))"
    by blast
next
  assume "us u' = None"
  then show "verify_user c u' p us = (False, None)" by (simp add: verify_user_def)
next
  assume "user_role \<notin> {''admin'', ''user''}"
  then show "add_user c salt_bytes u p user_role us = Inl ValueError"
    by (simp add: add_user_def)
qed

theorem verify_user_round_trip_witness:
  "''user'' \<in> {''admin'', ''user''} \<and>
   b64decode toy_crypto (b64encode toy_crypto [7, 200, 31]) = [7, 200, 31] \<and>
   map_sum id (verify_user toy_crypto ''ama'' ''s3cret'')
     (add_user toy_crypto [7, 200, 31] ''ama'' ''s3cret'' ''user'' Map.empty) =
     Inr (True, Some ''user'') \<and>
   pbkdf2_hash toy_crypto ''guess'' [7, 200, 31] \<noteq> pbkdf2_hash toy_crypto ''s3cret'' [7, 200, 31] \<and>
   map_sum id (verify_user toy_crypto ''ama'' ''guess'')
     (add_user toy_crypto [7, 200, 31] ''ama'' ''s3cret'' ''user'' Map.empty) =
     Inr (False, None) \<and>
   length (utf8 ''s3cret'') + 2 \<le> 64 \<and>
   map_sum id (verify_user toy_crypto ''ama'' (''s3cret'' @ replicate 2 (CHR 0x00)))
     (add_user toy_crypto [7, 200, 31] ''ama'' ''s3cret'' ''user'' Map.empty) =
     Inr (True, Some ''user'') \<and>
   verify_user toy_crypto ''kofi'' ''s3cret'' Map.empty = (False, None) \<and>
   add_user toy_crypto [7, 200, 31] ''ama'' ''s3cret'' ''root'' Map.empty = Inl ValueError"
proof -
  have r1: "''user'' \<in> {''admin'', ''user''}" by simp
  have r2: "b64decode toy_crypto (b64encode toy_crypto [7, 200, 31]) = [7, 200, 31]"
    by (simp add: toy_crypto_def)
  note r = conjI [OF r1 r2]
  have ne: "pbkdf2_hash toy_crypto ''guess'' [7, 200, 31] \<noteq>
      pbkdf2_hash toy_crypto ''s3cret'' [7, 200, 31]"
    by code_simp
  have len: "length (utf8 ''s3cret'') + 2 \<le> 64" by (simp add: utf8_def)
  have bad: "''root'' \<notin> {''admin'', ''user''}" by simp
  have e: "(Map.empty :: users) ''kofi'' = None" by simp
  note T = verify_user_round_trip [of "''user''" toy_crypto "[7, 200, 31]" "''ama''" "''s3cret''"
      Map.empty "''kofi''"]
  note A = T [THEN conjunct1, THEN mp, OF r]
  note K = T [THEN conjunct2, THEN conjunct1, THEN mp, OF e]
  note B = verify_user_round_trip [of "''root''" toy_crypto "[7, 200, 31]" "''ama''" "''s3cret''"
      Map.empty, THEN conjunct2, THEN conjunct2, THEN mp, OF bad]
  from A obtain us' where
    a: "add_user toy_crypto [7, 200, 31] ''ama'' ''s3cret'' ''user'' Map.empty = Inr us'"
    and v: "verify_user toy_crypto ''ama'' ''s3cret'' us' = (True, Some ''user'')"
    and n: "\<forall>p'. verify_user toy_crypto ''ama'' p' us' =
               (if pbkdf2_hash toy_crypto p' [7, 200, 31] =
                   pbkdf2_hash toy_crypto ''s3cret'' [7, 200, 31]
                then (True, Some ''user'') else (False, None))"
    and z: "\<forall>n. length (utf8 ''s3cret'') + n \<le> 64 \<longrightarrow>
               verify_user toy_crypto ''ama'' (''s3cret'' @ replicate n (CHR 0x00)) us' =
                 (True, Some ''user'')"
    by (elim exE conjE)
  have g: "verify_user toy_crypto ''ama'' ''guess'' us' = (False, None)"
    using n [THEN spec, of "''guess''"] ne by (simp only: if_False)
  note y = z [THEN spec, THEN mp, OF len]
  have 1: "map_sum id (verify_user toy_crypto ''ama'' ''s3cret'')
     (add_user toy_crypto [7, 200, 31] ''ama'' ''s3cret'' ''user'' Map.empty) =
     Inr (True, Some ''user'')" by (simp only: a v map_sum.simps)
  have 2: "map_sum id (verify_user toy_crypto ''ama'' ''guess'')
     (add_user toy_crypto [7, 200, 31] ''ama'' ''s3cret'' ''user'' Map.empty) =
     Inr (False, None)" by (simp only: a g map_sum.simps)
  have 3: "map_sum id (verify_user toy_crypto ''ama'' (''s3cret'' @ replicate 2 (CHR 0x00)))
     (add_user toy_crypto [7, 200, 31] ''ama'' ''s3cret'' ''user'' Map.empty) =
     Inr (True, Some ''user'')" by (simp only: a y map_sum.simps)
  from r1 r2 1 ne 2 len 3 K B show ?thesis by (intro conjI)
qed

text \<open>
  Claim C10: on a fresh database \<open>init_db\<close> creates the two tables and inserts no
  user: the \<open>users\<close> table has no row, and every login is answered \<open>(False, None)\<close>.
\<close>

theorem init_db_no_user:
  "users_table (init_db secrets fresh_db) = Some Map.empty \<and>
   assets (init_db secrets fresh_db) = Some [] \<and>
   login c username password (init_db secrets fresh_db) = Inr (False, None)"
  by (simp add: init_db_def fresh_db_def login_def verify_user_def Let_def)

lemma init_db_keeps_users:
  "users_table db = Some us \<Longrightarrow> users_table (init_db secrets db) = Some us"
  by (simp add: init_db_def Let_def)

section \<open>Properties of the update-history tracker\<close>

lemma join_history_snoc:
  "join_history (xs @ [x]) = (if xs = [] then x else join_history xs @ '' | '' @ x)"
  by (induction xs rule: join_history.induct) auto

lemma digit_char_not_bar: "digit_char n \<noteq> CHR ''|''"
proof
  assume "digit_char n = CHR ''|''"
  then have "of_char (digit_char n) = (of_char (CHR ''|'') :: nat)" by simp
  then have "(48 + n mod 10) mod 256 = (124::nat)" by (simp add: digit_char_def)
  moreover have "48 + n mod 10 < 58" by simp
  ultimately show False by simp
qed

lemma now_iso_no_bar: "CHR ''|'' \<notin> set (now_iso dt)"
  by (simp add: now_iso_def digits2_def digits4_def digit_char_not_bar [THEN not_sym])

lemma now_iso_not_empty: "now_iso dt \<noteq> []"
  by (simp add: now_iso_def digits4_def)

lemma entries_from_no_bar: "CHR ''|'' \<notin> set s \<Longrightarrow> entries_from s = 1"
  by (induction s rule: entries_from.induct) auto

lemma entries_from_sep:
  "CHR ''|'' \<notin> set s \<Longrightarrow> entries_from (s @ '' | '' @ rest) = Suc (entries_from rest)"
proof (induction s)
  case Nil
  then show ?case by simp
next
  case (Cons x s)
  then have IH: "entries_from (s @ '' | '' @ rest) = Suc (entries_from rest)"
    and x: "x \<noteq> CHR ''|''" and s: "CHR ''|'' \<notin> set s"
    by auto
  show ?case
  proof (cases s)
    case Nil
    then show ?thesis by simp
  next
    case (Cons y s')
    note sy = Cons
    with s have y: "y \<noteq> CHR ''|''" by auto
    show ?thesis
    proof (cases s')
      case Nil
      with sy y IH show ?thesis by simp
    next
      case (Cons z s'')
      with sy y IH show ?thesis by simp
    qed
  qed
qed

lemma join_history_no_bar_entries:
  "xs \<noteq> [] \<Longrightarrow> \<forall>x \<in> set xs. CHR ''|'' \<notin> set x \<Longrightarrow> entries_from (join_history xs) = length xs"
  by (induction xs rule: join_history.induct)
    (auto simp: entries_from_no_bar entries_from_sep [simplified])

lemma join_history_empty:
  "\<forall>x \<in> set xs. x \<noteq> [] \<Longrightarrow> join_history xs = [] \<longleftrightarrow> xs = []"
  by (induction xs rule: join_history.induct) auto

lemma history_count_timestamps:
  "history_count (join_history (map now_iso dts)) = length dts"
proof (cases dts)
  case Nil
  then show ?thesis by (simp add: history_count_def)
next
  case (Cons d ds)
  have ne: "join_history (map now_iso dts) \<noteq> []"
    using join_history_empty [of "map now_iso dts"] Cons by (auto simp: now_iso_not_empty)
  have "entries_from (join_history (map now_iso dts)) = length (map now_iso dts)"
    by (rule join_history_no_bar_entries) (auto simp: Cons now_iso_no_bar)
  with ne show ?thesis by (simp add: history_count_def)
qed

lemma history_of_matches: "history_of r dts \<Longrightarrow> history_matches_count r"
  by (simp add: history_of_def history_matches_count_def history_count_timestamps)

lemma dict_get_present: "dict_get r k VNone = v \<Longrightarrow> v \<noteq> VNone \<Longrightarrow> dict_get r k d = v"
  by (auto simp: dict_get_def split: option.splits)

lemma track_update_values:
  assumes "dict_get existing ''update_count'' VNone = VInt n"
    and "dict_get existing ''update_history'' VNone = VStr h"
  shows "track_update existing now =
           Inr [(''Update Count'', VInt (n + 1)),
                (''Update History'', VStr (if h = [] then now else h @ '' | '' @ now))]"
proof -
  have uc: "dict_get existing ''update_count'' (VInt 0) = VInt n"
    using assms(1) by (rule dict_get_present) simp
  have "py_or (VInt n) (VInt 0) = VInt n" by (simp add: py_or_def)
  moreover have "py_or (VStr h) (VStr []) = VStr h" by (simp add: py_or_def)
  ultimately show ?thesis
    by (simp add: track_update_def uc assms(2) Let_def)
qed

lemma track_update_history_of:
  assumes "history_of existing dts"
  shows "track_update existing (now_iso dt) =
           Inr [(''Update Count'', VInt (int (length (dts @ [dt])))),
                (''Update History'', VStr (join_history (map now_iso (dts @ [dt]))))]"
proof -
  have e: "join_history (map now_iso dts) = [] \<longleftrightarrow> dts = []"
    using join_history_empty [of "map now_iso dts"] by (auto simp: now_iso_not_empty)
  from assms show ?thesis
    by (simp add: history_of_def track_update_values join_history_snoc e)
qed

lemma assign_tracked:
  "dict_get (assign (fs @ [(''Last Updated'', v)] @
       [(''Update Count'', VInt c), (''Update History'', VStr h)]) r) ''update_count'' d = VInt c"
  "dict_get (assign (fs @ [(''Last Updated'', v)] @
       [(''Update Count'', VInt c), (''Update History'', VStr h)]) r) ''update_history'' d = VStr h"
  by (simp_all add: dict_get_def assign_map_add tracked_columns map_add_def store_def)

lemma history_of_assign:
  "history_of (assign (fs @ [(''Last Updated'', v)] @
       [(''Update Count'', VInt (int (length dts))),
        (''Update History'', VStr (join_history (map now_iso dts)))]) r) dts"
  unfolding history_of_def by (simp only: assign_tracked simp_thms)

lemma history_of_new_record: "history_of (row_of_record (new_record form tag now)) []"
  by (simp add: history_of_def dict_get_def row_of_record_def new_record_def
      asset_form.defs asset_record.defs)

lemma new_record_counter:
  "dict_get (row_of_record (new_record form tag now)) ''update_count'' VNone = VInt 0"
  "dict_get (row_of_record (new_record form tag now)) ''update_history'' VNone = VStr []"
  using history_of_new_record [of form tag now] by (simp_all add: history_of_def)

lemma get_asset_in: "get_asset tag t = Some r \<Longrightarrow> r \<in> set t \<and> tag_of r = VStr tag"
  by (auto simp: get_asset_def find_Some_iff)

lemma save_asset_preserves_history:
  assumes inv: "\<forall>r \<in> set t. \<exists>dts. history_of r dts"
    and s: "save_asset act choice form dt t = Inr t'"
  shows "\<forall>r \<in> set t'. \<exists>dts. history_of r dts"
proof (cases act)
  case Add_New_Asset
  with s have "t' = t @ [row_of_record (new_record form
                 (generate_asset_tag (text_entries (form_norm form))) (now_iso dt))]"
    using save_asset_add_Inr by blast
  with inv show ?thesis using history_of_new_record by (auto intro: exI [of _ "[]"])
next
  case Update_Existing_Asset
  with s have "save_asset Update_Existing_Asset choice form dt t = Inr t'" by simp
  then obtain tag tracked where
    tr: "track_update (case get_asset tag t of None \<Rightarrow> [] | Some r \<Rightarrow> r) (now_iso dt) = Inr tracked"
    and up: "update_asset tag (form_norm form @ [(''Last Updated'', VStr (now_iso dt))] @ tracked) t = Inr t'"
    by (rule save_asset_update_Inr)
  show ?thesis
  proof (cases "get_asset tag t")
    case None
    then have "map (\<lambda>r. if tag_of r = VStr tag then
        assign (form_norm form @ [(''Last Updated'', VStr (now_iso dt))] @ tracked) r else r) t = t"
      by (rule update_absent_map)
    with update_asset_Inr [OF handler_known_columns [OF tr] up] have "t' = t" by simp
    with inv show ?thesis by simp
  next
    case (Some e)
    then have "e \<in> set t" by (simp add: get_asset_in)
    with inv obtain dts where h: "history_of e dts" by blast
    from tr Some track_update_history_of [OF h, of dt]
    have tracked: "tracked = [(''Update Count'', VInt (int (length (dts @ [dt])))),
                (''Update History'', VStr (join_history (map now_iso (dts @ [dt]))))]"
      by simp
    have new: "history_of (assign (form_norm form @ [(''Last Updated'', VStr (now_iso dt))] @ tracked) r)
        (dts @ [dt])" for r
      unfolding tracked by (rule history_of_assign)
    show ?thesis
      unfolding update_asset_Inr [OF handler_known_columns [OF tr] up] using inv new by auto
  qed
qed

lemma run_preserves_history:
  "\<forall>r \<in> set t. \<exists>dts. history_of r dts \<Longrightarrow> \<forall>r \<in> set (run t submits). \<exists>dts. history_of r dts"
proof (induction submits arbitrary: t)
  case Nil
  then show ?case by simp
next
  case (Cons s submits)
  obtain act choice form dt where s: "s = (act, choice, form, dt)" by (cases s)
  show ?case
  proof (cases "save_asset act choice form dt t")
    case (Inl e)
    with Cons show ?thesis by (simp add: s)
  next
    case (Inr t')
    with Cons.prems have "\<forall>r \<in> set t'. \<exists>dts. history_of r dts"
      using save_asset_preserves_history by blast
    then have "\<forall>r \<in> set (run t' submits). \<exists>dts. history_of r dts" by (rule Cons.IH)
    with Inr show ?thesis by (simp add: s)
  qed
qed

lemma handler_keeps_tag:
  assumes tr: "track_update existing now = Inr tracked"
  shows "tag_of (assign (form_norm form @ [(''Last Updated'', VStr now)] @ tracked) x) = tag_of x"
proof -
  define ups where "ups = form_norm form @ [(''Last Updated'', VStr now)] @ tracked"
  have no_tag_key: "py_to_sql_col k \<noteq> ''asset_tag''" if "k \<in> set (map fst ups)" for k
    using handler_columns [OF tr, of k form] that unfolding ups_def by blast
  have no_tag: "''asset_tag'' \<notin> set (map (py_to_sql_col \<circ> fst) ups)"
  proof
    assume "''asset_tag'' \<in> set (map (py_to_sql_col \<circ> fst) ups)"
    then obtain k where "k \<in> set (map fst ups)" "py_to_sql_col k = ''asset_tag''"
      by force
    with no_tag_key show False by blast
  qed
  from assign_other [OF no_tag, of x] show ?thesis
    unfolding ups_def by (simp add: tag_of_def dict_get_def)
qed

lemma find_map_cond:
  assumes "\<And>x. P (f x) = P x"
  shows "find P (map (\<lambda>x. if P x then f x else x) xs) = map_option f (find P xs)"
  by (induction xs) (auto simp: assms)

lemma save_asset_update_values:
  assumes s: "save_asset Update_Existing_Asset choice form dt t = Inr t'"
    and c: "choice = Some tag"
    and g: "get_asset tag t = Some r"
    and n: "dict_get r ''update_count'' VNone = VInt n"
    and h: "dict_get r ''update_history'' VNone = VStr h"
  shows "\<exists>r'. get_asset tag t' = Some r' \<and>
           dict_get r' ''update_count'' VNone = VInt (n + 1) \<and>
           dict_get r' ''update_history'' VNone =
             VStr (if h = [] then now_iso dt else h @ '' | '' @ now_iso dt)"
proof -
  from s obtain tg tracked where ch: "choice = Some tg"
    and tr0: "track_update (case get_asset tg t of None \<Rightarrow> [] | Some r \<Rightarrow> r) (now_iso dt) = Inr tracked"
    and up0: "update_asset tg (form_norm form @ [(''Last Updated'', VStr (now_iso dt))] @ tracked) t = Inr t'"
    by (rule save_asset_update_Inr)
  from ch c have tg: "tg = tag" by simp
  note tr = tr0 [unfolded tg] and up = up0 [unfolded tg]
  from tr g track_update_values [OF n h, of "now_iso dt"]
  have tracked: "tracked = [(''Update Count'', VInt (n + 1)),
      (''Update History'', VStr (if h = [] then now_iso dt else h @ '' | '' @ now_iso dt))]"
    by simp
  define ups where "ups = form_norm form @ [(''Last Updated'', VStr (now_iso dt))] @ tracked"
  have keep: "(tag_of (assign ups x) = VStr tag) = (tag_of x = VStr tag)" for x
    using handler_keeps_tag [OF tr, of form x] by (simp add: ups_def)
  have t': "t' = map (\<lambda>r. if tag_of r = VStr tag then assign ups r else r) t"
    using update_asset_Inr [OF handler_known_columns [OF tr] up] by (simp add: ups_def)
  have "get_asset tag t' = map_option (assign ups) (get_asset tag t)"
    unfolding t' get_asset_def using keep by (rule find_map_cond)
  with g have "get_asset tag t' = Some (assign ups r)" by simp
  moreover have "dict_get (assign ups r) ''update_count'' VNone = VInt (n + 1)"
    unfolding ups_def tracked by (rule assign_tracked)
  moreover have "dict_get (assign ups r) ''update_history'' VNone =
             VStr (if h = [] then now_iso dt else h @ '' | '' @ now_iso dt)"
    unfolding ups_def tracked by (rule assign_tracked)
  ultimately show ?thesis by blast
qed

text \<open>
  The spreadsheet variant computes the same two values from the cells of the row; a
  missing history cell reads as the text \<open>nan\<close>, which the branch treats as empty.
\<close>

lemma xlsx_track_update_values:
  "xlsx_track_update (Some n) None now = (n + 1, now)"
  "xlsx_track_update None None now = (1, now)"
  "h \<notin> {[], ''nan'', ''None''} \<Longrightarrow>
     xlsx_track_update (Some n) (Some h) now = (n + 1, h @ '' | '' @ now)"
  by (simp_all add: xlsx_track_update_def)

text \<open>
  Claim C2: a record is created with update counter 0 and empty history; a successful
  update sets the counter to the old counter plus 1 and the history to the current
  timestamp when the old history is empty, else to the old history followed by
  \<open>" | "\<close> and the current timestamp; in every record reachable by a sequence of
  submits from the empty table the number of \<open>" | "\<close>-separated entries of the history
  equals the counter.
\<close>

theorem update_history_tracker:
  "(save_asset Add_New_Asset choice form dt t = Inr t' \<longrightarrow>
      (\<exists>r. t' = t @ [r] \<and> dict_get r ''update_count'' VNone = VInt 0 \<and>
           dict_get r ''update_history'' VNone = VStr [])) \<and>
   (save_asset Update_Existing_Asset (Some tag) form dt t = Inr t' \<and>
    get_asset tag t = Some r \<and>
    dict_get r ''update_count'' VNone = VInt n \<and>
    dict_get r ''update_history'' VNone = VStr h \<longrightarrow>
      (\<exists>r'. get_asset tag t' = Some r' \<and>
            dict_get r' ''update_count'' VNone = VInt (n + 1) \<and>
            dict_get r' ''update_history'' VNone =
              VStr (if h = [] then now_iso dt else h @ '' | '' @ now_iso dt))) \<and>
   (\<forall>x \<in> set (run [] submits). history_matches_count x)"
proof (intro conjI impI)
  assume "save_asset Add_New_Asset choice form dt t = Inr t'"
  then have "t' = t @ [row_of_record (new_record form
                 (generate_asset_tag (text_entries (form_norm form))) (now_iso dt))]"
    using save_asset_add_Inr by blast
  then show "\<exists>r. t' = t @ [r] \<and> dict_get r ''update_count'' VNone = VInt 0 \<and>
           dict_get r ''update_history'' VNone = VStr []"
    using new_record_counter by blast
next
  assume a: "save_asset Update_Existing_Asset (Some tag) form dt t = Inr t' \<and>
    get_asset tag t = Some r \<and>
    dict_get r ''update_count'' VNone = VInt n \<and>
    dict_get r ''update_history'' VNone = VStr h"
  show "\<exists>r'. get_asset tag t' = Some r' \<and>
            dict_get r' ''update_count'' VNone = VInt (n + 1) \<and>
            dict_get r' ''update_history'' VNone =
              VStr (if h = [] then now_iso dt else h @ '' | '' @ now_iso dt)"
    by (rule save_asset_update_values [OF a [THEN conjunct1] refl
          a [THEN conjunct2, THEN conjunct1]
          a [THEN conjunct2, THEN conjunct2, THEN conjunct1]
          a [THEN conjunct2, THEN conjunct2, THEN conjunct2]])
next
  have "\<forall>x \<in> set ([] :: table). \<exists>dts. history_of x dts" by simp
  then have "\<forall>x \<in> set (run [] submits). \<exists>dts. history_of x dts"
    by (rule run_preserves_history)
  then show "\<forall>x \<in> set (run [] submits). history_matches_count x"
    using history_of_matches by blast
qed

theorem update_history_tracker_witness:
  "map_sum id (map (\<lambda>x. (dict_get x ''update_count'' VNone, dict_get x ''update_history'' VNone)))
     (save_asset Add_New_Asset None dell_form clock1 []) = Inr [(VInt 0, VStr [])] \<and>
   get_asset ''DEL-ACC-IT-0001'' one_asset = Some (one_asset ! 0) \<and>
   dict_get (one_asset ! 0) ''update_count'' VNone = VInt 0 \<and>
   dict_get (one_asset ! 0) ''update_history'' VNone = VStr [] \<and>
   map_sum id (\<lambda>t'. map_option
       (\<lambda>x. (dict_get x ''update_count'' VNone, dict_get x ''update_history'' VNone))
       (get_asset ''DEL-ACC-IT-0001'' t'))
     (save_asset Update_Existing_Asset (Some ''DEL-ACC-IT-0001'') dell_form clock2 one_asset) =
     Inr (Some (VInt 1, VStr ''2024-03-09 16:30:12'')) \<and>
   length (run [] [(Add_New_Asset, None, dell_form, clock1),
      (Update_Existing_Asset, Some ''DEL-ACC-IT-0001'', dell_form, clock2),
      (Update_Existing_Asset, Some ''DEL-ACC-IT-0001'', dell_form, clock3)]) = 1 \<and>
   list_all history_matches_count
     (run [] [(Add_New_Asset, None, dell_form, clock1),
      (Update_Existing_Asset, Some ''DEL-ACC-IT-0001'', dell_form, clock2),
      (Update_Existing_Asset, Some ''DEL-ACC-IT-0001'', dell_form, clock3)])"
proof -
  let ?tag = "''DEL-ACC-IT-0001''"
  let ?submits = "[(Add_New_Asset, None, dell_form, clock1),
      (Update_Existing_Asset, Some ?tag, dell_form, clock2),
      (Update_Existing_Asset, Some ?tag, dell_form, clock3)]"
  have add: "save_asset Add_New_Asset None dell_form clock1 [] = Inr one_asset"
    by code_simp
  note T1 = update_history_tracker [THEN conjunct1, THEN mp, OF add]
  then obtain x where x: "one_asset = [] @ [x]"
    "dict_get x ''update_count'' VNone = VInt 0" "dict_get x ''update_history'' VNone = VStr []"
    by (elim exE conjE)
  have 1: "map_sum id (map (\<lambda>x. (dict_get x ''update_count'' VNone, dict_get x ''update_history'' VNone)))
     (save_asset Add_New_Asset None dell_form clock1 []) = Inr [(VInt 0, VStr [])]"
    unfolding add x(1) by (simp add: x(2,3))
  have g: "get_asset ?tag one_asset = Some (one_asset ! 0)" by code_simp
  have c: "dict_get (one_asset ! 0) ''update_count'' VNone = VInt 0" by code_simp
  have h: "dict_get (one_asset ! 0) ''update_history'' VNone = VStr []" by code_simp
  have "\<not> isl (save_asset Update_Existing_Asset (Some ?tag) dell_form clock2 one_asset)"
    by code_simp
  then obtain t' where up: "save_asset Update_Existing_Asset (Some ?tag) dell_form clock2 one_asset = Inr t'"
    by (cases "save_asset Update_Existing_Asset (Some ?tag) dell_form clock2 one_asset") simp_all
  note T2 = update_history_tracker [THEN conjunct2, THEN conjunct1, THEN mp,
      OF conjI [OF up conjI [OF g conjI [OF c h]]]]
  then obtain r' where r': "get_asset ?tag t' = Some r'"
    "dict_get r' ''update_count'' VNone = VInt (0 + 1)"
    "dict_get r' ''update_history'' VNone = VStr (if ([]::string) = [] then now_iso clock2 else [] @ '' | '' @ now_iso clock2)"
    by (elim exE conjE)
  have now2: "now_iso clock2 = ''2024-03-09 16:30:12''" by code_simp
  have 2: "map_sum id (\<lambda>t'. map_option
       (\<lambda>x. (dict_get x ''update_count'' VNone, dict_get x ''update_history'' VNone))
       (get_asset ?tag t'))
     (save_asset Update_Existing_Asset (Some ?tag) dell_form clock2 one_asset) =
     Inr (Some (VInt 1, VStr ''2024-03-09 16:30:12''))"
    unfolding up by (simp add: r' now2)
  have len: "length (run [] ?submits) = 1" by code_simp
  note T3 = update_history_tracker [THEN conjunct2, THEN conjunct2, of ?submits]
  then have 3: "list_all history_matches_count (run [] ?submits)"
    by (simp only: list_all_iff)
  from 1 g c h 2 len 3 show ?thesis by (intro conjI)
qed

end
